theory Spec2Isabelle
  imports Complex_Main
begin

section \<open>Python values, exceptions and the size arguments of the constructor\<close>

text \<open>
  Every exception the modelled code can raise is a value. \<open>RuntimeError\<close> is what the
  tensor engine raises on a shape mismatch, \<open>EinopsError\<close> what the \<open>einops\<close> patterns
  raise, the others are Python's own.
\<close>

datatype error =
    AssertionError
  | RuntimeError
  | EinopsError
  | ZeroDivisionError
  | ValueError
  | TypeError
  | IndexError

text \<open>
  The values \<open>image_size\<close> and \<open>patch_size\<close> may hold: the constructor does not fix their
  type, and \<open>pair\<close> inspects it with \<open>isinstance(t, tuple)\<close>.
\<close>

datatype pyval =
    PyInt int
  | PyNone
  | PyList "pyval list"
  | PyTuple "pyval list"

text \<open>\<^verbatim>\<open>def pair(t): return t if isinstance(t, tuple) else (t, t)\<close>\<close>

fun pair :: "pyval \<Rightarrow> pyval" where
  "pair (PyTuple ts) = PyTuple ts"
| "pair t = PyTuple [t, t]"

text \<open>The unpacking \<open>a, b = v\<close> of a value: exactly two items, or \<open>ValueError\<close>.\<close>

fun unpack2 :: "pyval \<Rightarrow> error + pyval \<times> pyval" where
  "unpack2 (PyTuple [a, b]) = Inr (a, b)"
| "unpack2 (PyList [a, b]) = Inr (a, b)"
| "unpack2 (PyTuple ts) = Inl ValueError"
| "unpack2 (PyList ts) = Inl ValueError"
| "unpack2 v = Inl TypeError"

text \<open>
  Python's \<open>//\<close> and \<open>*\<close> as the constructor uses them. On integers \<open>//\<close> is floor
  division, which is \<open>div\<close> on \<open>int\<close>, and raises on a zero divisor; on the other values
  of \<open>pyval\<close> it is a \<open>TypeError\<close>.
\<close>

fun py_floordiv :: "pyval \<Rightarrow> pyval \<Rightarrow> error + int" where
  "py_floordiv (PyInt a) (PyInt b) = (if b = 0 then Inl ZeroDivisionError else Inr (a div b))"
| "py_floordiv a b = Inl TypeError"

text \<open>
  The size computation that opens \<open>ViT.__init__\<close>:
  \<^verbatim>\<open>
  image_height, image_width = pair(image_size)
  patch_height, patch_width = pair(patch_size)
  num_patches = (image_height // patch_height) * (image_width // patch_width)
  patch_dim =  patch_height * patch_width * channels
  \<close>
  When both floor divisions succeed the four sizes are integers, so the products are
  integer products.
\<close>

record vit_sizes =
  sz_patch_height :: int
  sz_patch_width :: int
  sz_num_patches :: int
  sz_patch_dim :: int

definition ViT_init_sizes :: "pyval \<Rightarrow> pyval \<Rightarrow> int \<Rightarrow> error + vit_sizes" where
  "ViT_init_sizes image_size patch_size channels =
     (case unpack2 (pair image_size) of Inl e \<Rightarrow> Inl e
      | Inr (image_height, image_width) \<Rightarrow>
     (case unpack2 (pair patch_size) of Inl e \<Rightarrow> Inl e
      | Inr (patch_height, patch_width) \<Rightarrow>
     (case py_floordiv image_height patch_height of Inl e \<Rightarrow> Inl e
      | Inr rows \<Rightarrow>
     (case py_floordiv image_width patch_width of Inl e \<Rightarrow> Inl e
      | Inr cols \<Rightarrow>
     (case (patch_height, patch_width) of
        (PyInt ph, PyInt pw) \<Rightarrow>
          Inr \<lparr>sz_patch_height = ph, sz_patch_width = pw,
               sz_num_patches = rows * cols, sz_patch_dim = ph * pw * channels\<rparr>
      | _ \<Rightarrow> Inl TypeError)))))"


section \<open>Tensors and the primitives of the tensor engine\<close>

text \<open>
  A tensor is a shape together with its entries, read by a list of indices (one per
  axis). The engine's floating-point numbers are idealised as real numbers. An entry is
  meaningful where every index is below the size of its axis; all statements about
  entries are made there.
\<close>

record tensor =
  shape :: "nat list"
  elem :: "nat list \<Rightarrow> real"

text \<open>The index \<open>ix\<close> with its last component replaced by \<open>k\<close>: a walk along the last axis.\<close>

definition along_last :: "nat list \<Rightarrow> nat \<Rightarrow> nat list" where
  "along_last ix k = butlast ix @ [k]"

subsection \<open>Broadcasting addition\<close>

text \<open>
  \<open>x + y\<close> and \<open>x += y\<close> broadcast: shapes are aligned at the last axis, and two sizes fit
  when they are equal or one of them is 1. The in-place form also needs the result to
  have the shape of \<open>x\<close>.
\<close>

fun broadcast_rev :: "nat list \<Rightarrow> nat list \<Rightarrow> nat list option" where
  "broadcast_rev [] ys = Some ys"
| "broadcast_rev xs [] = Some xs"
| "broadcast_rev (x # xs) (y # ys) =
     (if x = y \<or> y = 1 then map_option ((#) x) (broadcast_rev xs ys)
      else if x = 1 then map_option ((#) y) (broadcast_rev xs ys)
      else None)"

definition broadcast_shapes :: "nat list \<Rightarrow> nat list \<Rightarrow> nat list option" where
  "broadcast_shapes s t = map_option rev (broadcast_rev (rev s) (rev t))"

definition bcast_index :: "nat list \<Rightarrow> nat list \<Rightarrow> nat list" where
  "bcast_index s ix =
     map2 (\<lambda>d i. if d = 1 then 0 else i) s (drop (length ix - length s) ix)"

definition tensor_add :: "tensor \<Rightarrow> tensor \<Rightarrow> error + tensor" where
  "tensor_add x y =
     (case broadcast_shapes (shape x) (shape y) of
        None \<Rightarrow> Inl RuntimeError
      | Some s \<Rightarrow>
          Inr \<lparr>shape = s,
               elem = (\<lambda>ix. elem x (bcast_index (shape x) ix) + elem y (bcast_index (shape y) ix))\<rparr>)"

definition tensor_iadd :: "tensor \<Rightarrow> tensor \<Rightarrow> error + tensor" where
  "tensor_iadd x y =
     (case tensor_add x y of
        Inl e \<Rightarrow> Inl e
      | Inr r \<Rightarrow> if shape r = shape x then Inr r else Inl RuntimeError)"

subsection \<open>Linear, LayerNorm, Dropout, Softmax\<close>

text \<open>
  \<open>nn.Linear(in_features, out_features, bias)\<close>: the weight has shape
  \<open>(out_features, in_features)\<close>, the bias is absent when \<open>bias=False\<close>. It maps the last
  axis and raises when that axis is not \<open>in_features\<close> long.
\<close>

record linear =
  in_features :: nat
  out_features :: nat
  lin_weight :: "nat \<Rightarrow> nat \<Rightarrow> real"
  lin_bias :: "(nat \<Rightarrow> real) option"

definition Linear_forward :: "linear \<Rightarrow> tensor \<Rightarrow> error + tensor" where
  "Linear_forward m x =
     (if shape x = [] \<or> last (shape x) \<noteq> in_features m then Inl RuntimeError
      else Inr \<lparr>shape = butlast (shape x) @ [out_features m],
                elem = (\<lambda>ix. (\<Sum>i<in_features m. elem x (along_last ix i) * lin_weight m (last ix) i)
                          + (case lin_bias m of None \<Rightarrow> 0 | Some b \<Rightarrow> b (last ix)))\<rparr>)"

text \<open>
  \<open>nn.LayerNorm(dim)\<close>, the default \<open>norm_layer\<close>: over the last axis, with the biased
  variance, \<open>eps\<close> under the root, then the elementwise weight and bias.
\<close>

record layernorm =
  ln_dim :: nat
  ln_eps :: real
  ln_weight :: "nat \<Rightarrow> real"
  ln_bias :: "nat \<Rightarrow> real"

definition row_mean :: "tensor \<Rightarrow> nat list \<Rightarrow> real" where
  "row_mean x ix = (\<Sum>k<last (shape x). elem x (along_last ix k)) / real (last (shape x))"

definition row_var :: "tensor \<Rightarrow> nat list \<Rightarrow> real" where
  "row_var x ix =
     (\<Sum>k<last (shape x). (elem x (along_last ix k) - row_mean x ix)\<^sup>2) / real (last (shape x))"

definition LayerNorm_forward :: "layernorm \<Rightarrow> tensor \<Rightarrow> error + tensor" where
  "LayerNorm_forward m x =
     (if shape x = [] \<or> last (shape x) \<noteq> ln_dim m then Inl RuntimeError
      else Inr \<lparr>shape = shape x,
                elem = (\<lambda>ix. (elem x ix - row_mean x ix) / sqrt (row_var x ix + ln_eps m)
                            * ln_weight m (last ix) + ln_bias m (last ix))\<rparr>)"

text \<open>
  \<open>nn.Dropout(p)\<close>. The random state of a call is the mask \<open>drop_keep\<close> it draws; in
  evaluation mode, and with \<open>p = 0\<close>, it is the identity.
\<close>

record dropout =
  drop_p :: real
  drop_training :: bool
  drop_keep :: "nat list \<Rightarrow> bool"

definition Dropout_forward :: "dropout \<Rightarrow> tensor \<Rightarrow> tensor" where
  "Dropout_forward m x =
     (if drop_training m \<and> drop_p m \<noteq> 0
      then \<lparr>shape = shape x,
            elem = (\<lambda>ix. if drop_keep m ix then elem x ix / (1 - drop_p m) else 0)\<rparr>
      else x)"

text \<open>\<open>nn.Softmax(dim=-1)\<close>: over the last axis.\<close>

definition softmax :: "tensor \<Rightarrow> tensor" where
  "softmax x =
     \<lparr>shape = shape x,
      elem = (\<lambda>ix. exp (elem x ix) / (\<Sum>k<last (shape x). exp (elem x (along_last ix k))))\<rparr>"

text \<open>
  What the engine computes and this development does not define: \<open>math.erf\<close>,
  \<open>Tensor.erfinv_\<close>, \<open>nn.GELU\<close> (elementwise) and bicubic \<open>nn.functional.interpolate\<close>
  with a pair of scale factors. Theorems hold for every such engine, or say what they
  need of it.
\<close>

record engine =
  erf :: "real \<Rightarrow> real"
  erfinv :: "real \<Rightarrow> real"
  gelu :: "real \<Rightarrow> real"
  interpolate_bicubic :: "tensor \<Rightarrow> real \<times> real \<Rightarrow> error + tensor"

definition GELU_forward :: "engine \<Rightarrow> tensor \<Rightarrow> tensor" where
  "GELU_forward eng x = \<lparr>shape = shape x, elem = (\<lambda>ix. gelu eng (elem x ix))\<rparr>"


section \<open>Multi-head self-attention\<close>

text \<open>
  \<open>Tensor.chunk(chunks, dim=-1)\<close>: pieces of \<open>ceil(size / chunks)\<close> entries along the last
  axis, the last piece shorter when the size is no multiple; fewer pieces than asked for
  when the size runs out, and \<open>chunks\<close> empty pieces for an empty axis.
\<close>

definition narrow_last :: "tensor \<Rightarrow> nat \<Rightarrow> nat \<Rightarrow> tensor" where
  "narrow_last x lo hi =
     \<lparr>shape = butlast (shape x) @ [hi - lo],
      elem = (\<lambda>ix. elem x (along_last ix (lo + last ix)))\<rparr>"

definition chunk_last :: "nat \<Rightarrow> tensor \<Rightarrow> tensor list" where
  "chunk_last chunks x =
     (let len = last (shape x); step = (len + chunks - 1) div chunks
      in if step = 0 then replicate chunks (narrow_last x 0 0)
         else map (\<lambda>i. narrow_last x (i * step) (min len ((i + 1) * step)))
                [0..<(len + step - 1) div step])"

text \<open>\<^verbatim>\<open>rearrange(t, 'b n (h d) -> b h n d', h=heads)\<close>\<close>

definition split_heads :: "nat \<Rightarrow> tensor \<Rightarrow> error + tensor" where
  "split_heads heads t =
     (case shape t of
        [b, n, c] \<Rightarrow>
          if heads = 0 \<or> c mod heads \<noteq> 0 then Inl EinopsError
          else Inr \<lparr>shape = [b, heads, n, c div heads],
                    elem = (\<lambda>ix. elem t [ix ! 0, ix ! 2, ix ! 1 * (c div heads) + ix ! 3])\<rparr>
      | _ \<Rightarrow> Inl EinopsError)"

text \<open>\<^verbatim>\<open>rearrange(out, 'b h n d -> b n (h d)', h=heads)\<close>\<close>

definition merge_heads :: "nat \<Rightarrow> tensor \<Rightarrow> error + tensor" where
  "merge_heads heads t =
     (case shape t of
        [b, h, n, d] \<Rightarrow>
          if h \<noteq> heads then Inl EinopsError
          else Inr \<lparr>shape = [b, n, h * d],
                    elem = (\<lambda>ix. elem t [ix ! 0, ix ! 2 div d, ix ! 1, ix ! 2 mod d])\<rparr>
      | _ \<Rightarrow> Inl EinopsError)"

text \<open>
  \<^verbatim>\<open>torch.einsum('b h n d, b h m d -> b h n m', q, k)\<close>: every query \<open>n\<close> against every
  key \<open>m\<close>, summed over the head dimension.
\<close>

definition einsum_qk :: "tensor \<Rightarrow> tensor \<Rightarrow> error + tensor" where
  "einsum_qk q k =
     (case (shape q, shape k) of
        ([b, h, n, d], [b', h', m, d']) \<Rightarrow>
          if b = b' \<and> h = h' \<and> d = d'
          then Inr \<lparr>shape = [b, h, n, m],
                    elem = (\<lambda>ix. \<Sum>j<d. elem q [ix ! 0, ix ! 1, ix ! 2, j]
                                        * elem k [ix ! 0, ix ! 1, ix ! 3, j])\<rparr>
          else Inl RuntimeError
      | _ \<Rightarrow> Inl RuntimeError)"

text \<open>\<^verbatim>\<open>torch.einsum('b h n m, b h m d -> b h n d', prod, v)\<close>\<close>

definition einsum_av :: "tensor \<Rightarrow> tensor \<Rightarrow> error + tensor" where
  "einsum_av a v =
     (case (shape a, shape v) of
        ([b, h, n, m], [b', h', m', d]) \<Rightarrow>
          if b = b' \<and> h = h' \<and> m = m'
          then Inr \<lparr>shape = [b, h, n, d],
                    elem = (\<lambda>ix. \<Sum>j<m. elem a [ix ! 0, ix ! 1, ix ! 2, j]
                                        * elem v [ix ! 0, ix ! 1, j, ix ! 3])\<rparr>
          else Inl RuntimeError
      | _ \<Rightarrow> Inl RuntimeError)"

definition scale_by :: "real \<Rightarrow> tensor \<Rightarrow> tensor" where
  "scale_by c x = \<lparr>shape = shape x, elem = (\<lambda>ix. elem x ix * c)\<rparr>"

text \<open>
  The module \<open>Attention\<close>: \<open>to_out\<close> is the \<open>nn.Sequential\<close> of a linear map and a dropout.
\<close>

record attention =
  attn_heads :: nat
  attn_scale :: real
  attn_dropout :: dropout
  to_qkv :: linear
  to_out_linear :: linear
  to_out_dropout :: dropout

text \<open>
  Lines 63 to 66 of \<open>Attention.forward\<close>: the attention weights, after the softmax and
  before the dropout.
  \<^verbatim>\<open>
  qkv = self.to_qkv(x).chunk(3, dim=-1)
  q, k, v = map(lambda t: rearrange(t, 'b n (h d) -> b h n d', h=self.heads), qkv)
  prod = torch.einsum('b h n d, b h m d -> b h n m', q, k) * self.scale
  prod = self.softmax(prod)
  \<close>
  The unpacking into \<open>q, k, v\<close> needs exactly three chunks.
\<close>

definition Attention_qkv :: "attention \<Rightarrow> tensor \<Rightarrow> error + tensor \<times> tensor \<times> tensor" where
  "Attention_qkv m x =
     (case Linear_forward (to_qkv m) x of Inl e \<Rightarrow> Inl e
      | Inr y \<Rightarrow>
     (case chunk_last 3 y of
        [cq, ck, cv] \<Rightarrow>
          (case split_heads (attn_heads m) cq of Inl e \<Rightarrow> Inl e
           | Inr q \<Rightarrow>
          (case split_heads (attn_heads m) ck of Inl e \<Rightarrow> Inl e
           | Inr k \<Rightarrow>
          (case split_heads (attn_heads m) cv of Inl e \<Rightarrow> Inl e
           | Inr v \<Rightarrow> Inr (q, k, v))))
      | _ \<Rightarrow> Inl ValueError))"

definition Attention_weights :: "attention \<Rightarrow> tensor \<Rightarrow> error + tensor" where
  "Attention_weights m x =
     (case Attention_qkv m x of Inl e \<Rightarrow> Inl e
      | Inr (q, k, v) \<Rightarrow>
     (case einsum_qk q k of Inl e \<Rightarrow> Inl e
      | Inr scores \<Rightarrow> Inr (softmax (scale_by (attn_scale m) scores))))"

text \<open>
  The whole of \<open>Attention.forward\<close>; after the weights:
  \<^verbatim>\<open>
  prod = self.dropout(prod)
  out = torch.einsum('b h n m, b h m d -> b h n d', prod, v)
  out = rearrange(out, 'b h n d -> b n (h d)', h=self.heads)
  return self.to_out(out)
  \<close>
\<close>

definition Attention_forward :: "attention \<Rightarrow> tensor \<Rightarrow> error + tensor" where
  "Attention_forward m x =
     (case Attention_qkv m x of Inl e \<Rightarrow> Inl e
      | Inr (q, k, v) \<Rightarrow>
     (case Attention_weights m x of Inl e \<Rightarrow> Inl e
      | Inr weights \<Rightarrow>
     (case einsum_av (Dropout_forward (attn_dropout m) weights) v of Inl e \<Rightarrow> Inl e
      | Inr out \<Rightarrow>
     (case merge_heads (attn_heads m) out of Inl e \<Rightarrow> Inl e
      | Inr merged \<Rightarrow>
     (case Linear_forward (to_out_linear m) merged of Inl e \<Rightarrow> Inl e
      | Inr y \<Rightarrow> Inr (Dropout_forward (to_out_dropout m) y))))))"

section \<open>The transformer block\<close>

text \<open>
  \<open>mlp\<close> is the \<open>nn.Sequential\<close> of a linear map, a dropout, \<open>nn.GELU\<close>, a linear map and a
  dropout.
\<close>

record transformer_block =
  norm1 :: layernorm
  attention :: attention
  mlp_fc1 :: linear
  mlp_drop1 :: dropout
  mlp_fc2 :: linear
  mlp_drop2 :: dropout
  norm2 :: layernorm

definition mlp_forward :: "engine \<Rightarrow> transformer_block \<Rightarrow> tensor \<Rightarrow> error + tensor" where
  "mlp_forward eng blk x =
     (case Linear_forward (mlp_fc1 blk) x of Inl e \<Rightarrow> Inl e
      | Inr h \<Rightarrow>
     (case Linear_forward (mlp_fc2 blk)
             (GELU_forward eng (Dropout_forward (mlp_drop1 blk) h)) of Inl e \<Rightarrow> Inl e
      | Inr y \<Rightarrow> Inr (Dropout_forward (mlp_drop2 blk) y)))"

text \<open>
  \<open>TransformerBlock.forward\<close>, statement by statement (the variable \<open>x\<close> is assigned four
  times; the four values are \<open>n1\<close>, \<open>t\<close>, \<open>n2\<close> and the result):
  \<^verbatim>\<open>
  x = self.norm1(x)
  x = x + self.attention(x)
  x = self.norm2(x)
  x = x + self.mlp(x)
  return x
  \<close>
\<close>

definition TransformerBlock_forward :: "engine \<Rightarrow> transformer_block \<Rightarrow> tensor \<Rightarrow> error + tensor" where
  "TransformerBlock_forward eng blk x =
     (case LayerNorm_forward (norm1 blk) x of Inl e \<Rightarrow> Inl e
      | Inr n1 \<Rightarrow>
     (case Attention_forward (attention blk) n1 of Inl e \<Rightarrow> Inl e
      | Inr a \<Rightarrow>
     (case tensor_add n1 a of Inl e \<Rightarrow> Inl e
      | Inr t \<Rightarrow>
     (case LayerNorm_forward (norm2 blk) t of Inl e \<Rightarrow> Inl e
      | Inr n2 \<Rightarrow>
     (case mlp_forward eng blk n2 of Inl e \<Rightarrow> Inl e
      | Inr m \<Rightarrow> tensor_add n2 m)))))"


section \<open>Patch embedding\<close>

text \<open>
  The linear variant starts with
  \<^verbatim>\<open>Rearrange('b c (h ph) (w pw) -> b (h w) (ph pw c)', ph=patch_height, pw=patch_width)\<close>:
  the pattern matches only when the patch sizes divide the height and the width. With
  \<open>gw\<close> patches in a row of the grid, sequence position \<open>i * gw + j\<close> holds the patch in
  row \<open>i\<close> and column \<open>j\<close>, and position \<open>(p * pw + q) * c + ch\<close> of its vector the pixel
  \<open>(p, q)\<close> of the patch in channel \<open>ch\<close>. (A patch size that is not positive matches no
  image; which exception then surfaces is the libraries' matter.)
\<close>

definition to_patches :: "int \<Rightarrow> int \<Rightarrow> tensor \<Rightarrow> error + tensor" where
  "to_patches patch_h patch_w x =
     (case shape x of
        [b, c, H, W] \<Rightarrow>
          if patch_h \<le> 0 \<or> patch_w \<le> 0 \<or> H mod nat patch_h \<noteq> 0 \<or> W mod nat patch_w \<noteq> 0
          then Inl EinopsError
          else
            let ph = nat patch_h; pw = nat patch_w; gw = W div pw
            in Inr \<lparr>shape = [b, (H div ph) * gw, ph * pw * c],
                    elem = (\<lambda>ix. elem x [ix ! 0, ix ! 2 mod c,
                                          (ix ! 1 div gw) * ph + ix ! 2 div (pw * c),
                                          (ix ! 1 mod gw) * pw + (ix ! 2 div c) mod pw])\<rparr>
      | _ \<Rightarrow> Inl EinopsError)"

text \<open>
  \<open>nn.Conv2d(channels, dim, kernel_size=patch_size, stride=patch_size)\<close>, with its bias
  (the default), no padding and no dilation. The kernel and the stride are the same pair.
\<close>

record conv2d =
  in_channels :: nat
  out_channels :: nat
  kernel_h :: nat
  kernel_w :: nat
  conv_weight :: "nat \<Rightarrow> nat \<Rightarrow> nat \<Rightarrow> nat \<Rightarrow> real"
  conv_bias :: "nat \<Rightarrow> real"

definition Conv2d_forward :: "conv2d \<Rightarrow> tensor \<Rightarrow> error + tensor" where
  "Conv2d_forward m x =
     (case shape x of
        [b, c, H, W] \<Rightarrow>
          if c \<noteq> in_channels m \<or> kernel_h m = 0 \<or> kernel_w m = 0
             \<or> H < kernel_h m \<or> W < kernel_w m
          then Inl RuntimeError
          else Inr \<lparr>shape = [b, out_channels m,
                             (H - kernel_h m) div kernel_h m + 1,
                             (W - kernel_w m) div kernel_w m + 1],
                    elem = (\<lambda>ix. conv_bias m (ix ! 1)
                       + (\<Sum>ch<in_channels m. \<Sum>p<kernel_h m. \<Sum>q<kernel_w m.
                            conv_weight m (ix ! 1) ch p q
                            * elem x [ix ! 0, ch, ix ! 2 * kernel_h m + p,
                                      ix ! 3 * kernel_w m + q]))\<rparr>
      | _ \<Rightarrow> Inl RuntimeError)"

text \<open>\<open>x.flatten(2)\<close> and \<open>x.transpose(1, 2)\<close> on what the convolution returns.\<close>

definition flatten2 :: "tensor \<Rightarrow> error + tensor" where
  "flatten2 t =
     (case shape t of
        [b, d, gh, gw] \<Rightarrow>
          Inr \<lparr>shape = [b, d, gh * gw],
               elem = (\<lambda>ix. elem t [ix ! 0, ix ! 1, ix ! 2 div gw, ix ! 2 mod gw])\<rparr>
      | _ \<Rightarrow> Inl RuntimeError)"

definition transpose12 :: "tensor \<Rightarrow> error + tensor" where
  "transpose12 t =
     (case shape t of
        [b, d, k] \<Rightarrow> Inr \<lparr>shape = [b, k, d], elem = (\<lambda>ix. elem t [ix ! 0, ix ! 2, ix ! 1])\<rparr>
      | _ \<Rightarrow> Inl RuntimeError)"

text \<open>
  \<^verbatim>\<open>
  def forward(self, x):
      x = self.projection(x)
      return x.flatten(2).transpose(1,2)
  \<close>
\<close>

definition ConvProjection_forward :: "conv2d \<Rightarrow> tensor \<Rightarrow> error + tensor" where
  "ConvProjection_forward m x =
     (case Conv2d_forward m x of Inl e \<Rightarrow> Inl e
      | Inr y \<Rightarrow>
     (case flatten2 y of Inl e \<Rightarrow> Inl e
      | Inr f \<Rightarrow> transpose12 f))"

text \<open>
  \<open>self.patch_to_embedding\<close> is one of the two: the \<open>nn.Sequential\<close> of the \<open>Rearrange\<close>
  (with its two patch sizes) and a linear map, or a \<open>ConvProjection\<close>.
\<close>

datatype patch_embedding =
    LinearPatches int int linear
  | ConvProjection conv2d

fun patch_to_embedding_forward :: "patch_embedding \<Rightarrow> tensor \<Rightarrow> error + tensor" where
  "patch_to_embedding_forward (LinearPatches ph pw lin) x =
     (case to_patches ph pw x of Inl e \<Rightarrow> Inl e | Inr patches \<Rightarrow> Linear_forward lin patches)"
| "patch_to_embedding_forward (ConvProjection conv) x = ConvProjection_forward conv x"


section \<open>The encoder\<close>

record vit =
  patch_height :: int
  patch_width :: int
  patch_to_embedding :: patch_embedding
  pos_embedding :: tensor
  cls_token :: tensor
  vit_dropout :: dropout
  layers :: "transformer_block list"
  pool :: bool
  vit_norm :: layernorm

subsection \<open>Positional encoding\<close>

text \<open>Python's \<open>int\<close> of a float truncates towards zero.\<close>

definition int_trunc :: "real \<Rightarrow> int" where
  "int_trunc r = (if 0 \<le> r then \<lfloor>r\<rfloor> else \<lceil>r\<rceil>)"

text \<open>
  \<^verbatim>\<open>patch_pos_embed.reshape(1, int(math.sqrt(N)), int(math.sqrt(N)), dim).permute(0, 3, 1, 2)\<close>
  on \<open>patch_pos_embed = self.pos_embedding[:, 1:]\<close>: the rows after the first, read in
  row-major order as a \<open>side\<close> by \<open>side\<close> grid of vectors, channels first after the
  permutation. \<open>pos\<close> has shape \<open>[p0, p1, pd]\<close>; the caller has checked the element count.
\<close>

definition pos_grid :: "tensor \<Rightarrow> nat \<Rightarrow> nat \<Rightarrow> tensor" where
  "pos_grid pos side dm =
     (let n = shape pos ! 1 - 1; pd = shape pos ! 2
      in \<lparr>shape = [1, dm, side, side],
          elem = (\<lambda>ix. let flat = (ix ! 2 * side + ix ! 3) * dm + ix ! 1
                       in elem pos [flat div (n * pd), 1 + (flat div pd) mod n, flat mod pd])\<rparr>)"

text \<open>
  \<^verbatim>\<open>patch_pos_embed.permute(0, 2, 3, 1).view(1, -1, dim)\<close> on the resized grid: the
  permutation needs four axes, the view a positive \<open>dim\<close> that divides the element count.
\<close>

definition grid_to_sequence :: "nat \<Rightarrow> tensor \<Rightarrow> error + tensor" where
  "grid_to_sequence dm g =
     (case shape g of
        [g0, g1, g2, g3] \<Rightarrow>
          if dm = 0 \<or> (g0 * g1 * g2 * g3) mod dm \<noteq> 0 then Inl RuntimeError
          else Inr \<lparr>shape = [1, (g0 * g1 * g2 * g3) div dm, dm],
                    elem = (\<lambda>ix. let flat = ix ! 1 * dm + ix ! 2
                                 in elem g [flat div (g2 * g3 * g1), flat mod g1,
                                            (flat div (g3 * g1)) mod g2, (flat div g1) mod g3])\<rparr>
      | _ \<Rightarrow> Inl RuntimeError)"

text \<open>
  \<^verbatim>\<open>torch.cat((class_pos_embed.unsqueeze(0), patch_pos_embed), dim=1)\<close> with
  \<open>class_pos_embed = self.pos_embedding[:, 0]\<close>: the two must agree in the last axis.
\<close>

definition cat_class_pos :: "tensor \<Rightarrow> tensor \<Rightarrow> error + tensor" where
  "cat_class_pos pos patch =
     (case (shape pos, shape patch) of
        ([p0, p1, pd], [q0, q1, qd]) \<Rightarrow>
          if q0 = 1 \<and> pd = qd
          then Inr \<lparr>shape = [1, p0 + q1, pd],
                    elem = (\<lambda>ix. if ix ! 1 < p0 then elem pos [ix ! 1, 0, ix ! 2]
                                 else elem patch [0, ix ! 1 - p0, ix ! 2])\<rparr>
          else Inl RuntimeError
      | _ \<Rightarrow> Inl RuntimeError)"

text \<open>
  \<open>ViT.interpolate_pos_encoding(x, w, h)\<close>. \<open>self.pos_embedding\<close> has three axes (the
  constructor creates it so; with fewer than two, \<open>shape[1]\<close> is an \<open>IndexError\<close>).
  \<^verbatim>\<open>
  num_patches = x.shape[1] - 1
  N = self.pos_embedding.shape[1] - 1
  if num_patches == N and w == h: # if size matches, do nothing
      return self.pos_embedding
  class_pos_embed = self.pos_embedding[:, 0]
  patch_pos_embed = self.pos_embedding[:, 1:]
  dim = x.shape[-1]
  h0 = h // self.patch_height
  w0 = w // self.patch_width
  h0, w0 = h0 + 0.1, w0 + 0.1
  patch_pos_embed = nn.functional.interpolate(
      patch_pos_embed.reshape(1, int(math.sqrt(N)), int(math.sqrt(N)), dim).permute(0, 3, 1, 2),
      scale_factor=(h0 / math.sqrt(N), w0 / math.sqrt(N)),
      mode='bicubic',
  )
  assert int(h0) == patch_pos_embed.shape[-2] and int(w0) == patch_pos_embed.shape[-1]
  patch_pos_embed = patch_pos_embed.permute(0, 2, 3, 1).view(1, -1, dim)
  return torch.cat((class_pos_embed.unsqueeze(0), patch_pos_embed), dim=1)
  \<close>
  The exceptions, in the order the statements can raise them: \<open>IndexError\<close> for
  \<open>[:, 0]\<close> on an empty axis, \<open>ZeroDivisionError\<close> for a zero patch size, \<open>RuntimeError\<close>
  for a reshape that does not fit, \<open>ZeroDivisionError\<close> for \<open>math.sqrt(N) = 0\<close>, whatever
  the interpolation raises, the assertion, and \<open>RuntimeError\<close> from the view or the
  concatenation.
\<close>

definition interpolate_pos_encoding :: "engine \<Rightarrow> vit \<Rightarrow> tensor \<Rightarrow> nat \<Rightarrow> nat \<Rightarrow> error + tensor" where
  "interpolate_pos_encoding eng self x w h =
     (case (shape x, shape (pos_embedding self)) of
        (x0 # x1 # xs, [p0, p1, pd]) \<Rightarrow>
          let num_patches = int x1 - 1; N = int p1 - 1
          in if num_patches = N \<and> w = h then Inr (pos_embedding self)
             else if p1 = 0 then Inl IndexError
             else if patch_height self = 0 \<or> patch_width self = 0 then Inl ZeroDivisionError
             else
               let dm = last (x1 # xs);
                   h0 = real_of_int (int h div patch_height self) + 0.1;
                   w0 = real_of_int (int w div patch_width self) + 0.1;
                   side = nat (int_trunc (sqrt (real_of_int N)))
               in if p0 * nat N * pd \<noteq> side * side * dm then Inl RuntimeError
                  else if sqrt (real_of_int N) = 0 then Inl ZeroDivisionError
                  else
                    (case interpolate_bicubic eng (pos_grid (pos_embedding self) side dm)
                            (h0 / sqrt (real_of_int N), w0 / sqrt (real_of_int N)) of
                       Inl e \<Rightarrow> Inl e
                     | Inr g \<Rightarrow>
                         if length (shape g) < 2 then Inl IndexError
                         else if \<not> (int_trunc h0 = int (shape g ! (length (shape g) - 2))
                                    \<and> int_trunc w0 = int (last (shape g)))
                         then Inl AssertionError
                         else
                           (case grid_to_sequence dm g of Inl e \<Rightarrow> Inl e
                            | Inr patch \<Rightarrow> cat_class_pos (pos_embedding self) patch))
      | _ \<Rightarrow> Inl IndexError)"

subsection \<open>The forward pass\<close>

text \<open>
  \<open>self.cls_token.expand(b, -1, -1)\<close>, \<open>torch.cat((cls_tokens, x), dim=1)\<close>, the loop over
  \<open>self.layers\<close>, \<open>x.mean(dim=1)\<close> and \<open>x[:,0]\<close>.
\<close>

definition expand_batch :: "tensor \<Rightarrow> nat \<Rightarrow> error + tensor" where
  "expand_batch t b =
     (case shape t of
        [t0, t1, t2] \<Rightarrow>
          if t0 = b then Inr t
          else if t0 = 1 then Inr \<lparr>shape = [b, t1, t2], elem = (\<lambda>ix. elem t [0, ix ! 1, ix ! 2])\<rparr>
          else Inl RuntimeError
      | [t1, t2] \<Rightarrow> Inr \<lparr>shape = [b, t1, t2], elem = (\<lambda>ix. elem t [ix ! 1, ix ! 2])\<rparr>
      | _ \<Rightarrow> Inl RuntimeError)"

definition cat_dim1 :: "tensor \<Rightarrow> tensor \<Rightarrow> error + tensor" where
  "cat_dim1 a x =
     (case (shape a, shape x) of
        ([a0, a1, a2], [x0, x1, x2]) \<Rightarrow>
          if a0 = x0 \<and> a2 = x2
          then Inr \<lparr>shape = [a0, a1 + x1, a2],
                    elem = (\<lambda>ix. if ix ! 1 < a1 then elem a ix
                                 else elem x [ix ! 0, ix ! 1 - a1, ix ! 2])\<rparr>
          else Inl RuntimeError
      | _ \<Rightarrow> Inl RuntimeError)"

fun layers_forward :: "engine \<Rightarrow> transformer_block list \<Rightarrow> tensor \<Rightarrow> error + tensor" where
  "layers_forward eng [] x = Inr x"
| "layers_forward eng (layer # rest) x =
     (case TransformerBlock_forward eng layer x of
        Inl e \<Rightarrow> Inl e
      | Inr y \<Rightarrow> layers_forward eng rest y)"

definition mean_dim1 :: "tensor \<Rightarrow> error + tensor" where
  "mean_dim1 x =
     (case shape x of
        [b, n, d] \<Rightarrow>
          Inr \<lparr>shape = [b, d],
               elem = (\<lambda>ix. (\<Sum>k<n. elem x [ix ! 0, k, ix ! 1]) / real n)\<rparr>
      | _ \<Rightarrow> Inl IndexError)"

definition select_dim1 :: "tensor \<Rightarrow> nat \<Rightarrow> error + tensor" where
  "select_dim1 x k =
     (case shape x of
        [b, n, d] \<Rightarrow>
          if k < n then Inr \<lparr>shape = [b, d], elem = (\<lambda>ix. elem x [ix ! 0, k, ix ! 1])\<rparr>
          else Inl IndexError
      | _ \<Rightarrow> Inl IndexError)"

text \<open>
  Lines 175 to 184 of \<open>ViT.forward\<close>, up to the sequence that is pooled:
  \<^verbatim>\<open>
  b, _, w, h = x.shape
  x = self.patch_to_embedding(x)
  n = x.shape[1]
  cls_tokens = self.cls_token.expand(b, -1, -1)
  x = torch.cat((cls_tokens, x), dim=1)
  x += self.interpolate_pos_encoding(x, w, h)
  x = self.dropout(x)
  for layer in self.layers:
      x = layer(x)
  if norm: x = self.norm(x)
  \<close>
\<close>

definition ViT_sequence :: "engine \<Rightarrow> vit \<Rightarrow> tensor \<Rightarrow> bool \<Rightarrow> error + tensor" where
  "ViT_sequence eng self x norm_flag =
     (case shape x of
        [b, c, w, h] \<Rightarrow>
          (case patch_to_embedding_forward (patch_to_embedding self) x of Inl e \<Rightarrow> Inl e
           | Inr x1 \<Rightarrow>
          (case expand_batch (cls_token self) b of Inl e \<Rightarrow> Inl e
           | Inr cls_tokens \<Rightarrow>
          (case cat_dim1 cls_tokens x1 of Inl e \<Rightarrow> Inl e
           | Inr x2 \<Rightarrow>
          (case interpolate_pos_encoding eng self x2 w h of Inl e \<Rightarrow> Inl e
           | Inr pe \<Rightarrow>
          (case tensor_iadd x2 pe of Inl e \<Rightarrow> Inl e
           | Inr x3 \<Rightarrow>
          (case layers_forward eng (layers self) (Dropout_forward (vit_dropout self) x3) of
             Inl e \<Rightarrow> Inl e
           | Inr x4 \<Rightarrow>
               if norm_flag then LayerNorm_forward (vit_norm self) x4 else Inr x4))))))
      | _ \<Rightarrow> Inl ValueError)"

text \<open>
  \<open>ViT.forward(x, norm=True, mixup=None, lbda=None, perm=None)\<close>; the last two lines:
  \<^verbatim>\<open>
  features = x.mean(dim=1) if self.pool else x[:,0]
  return features
  \<close>
  The three last arguments may be any Python value.
\<close>

definition ViT_forward ::
  "engine \<Rightarrow> vit \<Rightarrow> tensor \<Rightarrow> bool \<Rightarrow> 'm \<Rightarrow> 'l \<Rightarrow> 'p \<Rightarrow> error + tensor" where
  "ViT_forward eng self x norm_flag mixup lbda perm =
     (case ViT_sequence eng self x norm_flag of
        Inl e \<Rightarrow> Inl e
      | Inr s \<Rightarrow> if pool self then mean_dim1 s else select_dim1 s 0)"


section \<open>The constructors\<close>

text \<open>
  A constructor draws the initial parameters at random, and training replaces them; the
  model takes the values of the parameters as an argument, by the parameter's name and
  index (for a parameter of a block, also by the number of the block), so that a
  statement about every constructed module is a statement about every value of every
  parameter. The masks of the dropout modules and the training flag come the same way.
\<close>

record initial =
  ini_values :: "string \<Rightarrow> nat list \<Rightarrow> real"
  ini_layer_values :: "nat \<Rightarrow> string \<Rightarrow> nat list \<Rightarrow> real"
  ini_masks :: "string \<Rightarrow> nat list \<Rightarrow> bool"
  ini_layer_masks :: "nat \<Rightarrow> string \<Rightarrow> nat list \<Rightarrow> bool"
  ini_training :: bool

definition Linear_init ::
  "nat \<Rightarrow> nat \<Rightarrow> bool \<Rightarrow> (string \<Rightarrow> nat list \<Rightarrow> real) \<Rightarrow> string \<Rightarrow> linear" where
  "Linear_init n_in n_out with_bias vals name =
     \<lparr>in_features = n_in, out_features = n_out,
      lin_weight = (\<lambda>j i. vals (name @ ''.weight'') [j, i]),
      lin_bias = (if with_bias then Some (\<lambda>j. vals (name @ ''.bias'') [j]) else None)\<rparr>"

definition LayerNorm_init :: "nat \<Rightarrow> (string \<Rightarrow> nat list \<Rightarrow> real) \<Rightarrow> string \<Rightarrow> layernorm" where
  "LayerNorm_init d vals name =
     \<lparr>ln_dim = d, ln_eps = 1 / 100000,
      ln_weight = (\<lambda>j. vals (name @ ''.weight'') [j]),
      ln_bias = (\<lambda>j. vals (name @ ''.bias'') [j])\<rparr>"

text \<open>\<open>nn.Dropout(p)\<close> raises \<open>ValueError\<close> unless \<open>0 \<le> p \<le> 1\<close>.\<close>

definition Dropout_init ::
  "real \<Rightarrow> bool \<Rightarrow> (string \<Rightarrow> nat list \<Rightarrow> bool) \<Rightarrow> string \<Rightarrow> error + dropout" where
  "Dropout_init p training msks name =
     (if p < 0 \<or> p > 1 then Inl ValueError
      else Inr \<lparr>drop_p = p, drop_training = training, drop_keep = msks name\<rparr>)"

text \<open>
  \<^verbatim>\<open>
  inner_dim = dim_head *  heads
  self.heads = heads
  self.scale = dim_head ** -0.5
  self.dropout = nn.Dropout(dropout)
  self.to_qkv = nn.Linear(dim, inner_dim*3, bias=qkv_bias)
  self.softmax = nn.Softmax(dim=-1)
  self.to_out = nn.Sequential(nn.Linear(inner_dim, dim), nn.Dropout(dropout))
  \<close>
  \<open>0 ** -0.5\<close> is a \<open>ZeroDivisionError\<close>.
\<close>

definition Attention_init ::
  "nat \<Rightarrow> nat \<Rightarrow> nat \<Rightarrow> real \<Rightarrow> bool \<Rightarrow> (string \<Rightarrow> nat list \<Rightarrow> real) \<Rightarrow> bool
   \<Rightarrow> (string \<Rightarrow> nat list \<Rightarrow> bool) \<Rightarrow> error + attention" where
  "Attention_init d heads dim_head p qkv_bias vals training msks =
     (let inner_dim = dim_head * heads
      in if dim_head = 0 then Inl ZeroDivisionError
         else
           (case Dropout_init p training msks ''attention.dropout'' of Inl e \<Rightarrow> Inl e
            | Inr drop1 \<Rightarrow>
           (case Dropout_init p training msks ''attention.to_out.1'' of Inl e \<Rightarrow> Inl e
            | Inr drop2 \<Rightarrow>
                Inr \<lparr>attn_heads = heads,
                     attn_scale = real dim_head powr (- 1 / 2),
                     attn_dropout = drop1,
                     to_qkv = Linear_init d (inner_dim * 3) qkv_bias vals ''attention.to_qkv'',
                     to_out_linear = Linear_init inner_dim d True vals ''attention.to_out.0'',
                     to_out_dropout = drop2\<rparr>)))"

text \<open>
  \<^verbatim>\<open>
  self.norm1 = norm_layer(dim)
  self.attention = Attention(dim, heads, dim_head, dropout, qkv_bias=qkv_bias)
  self.mlp = nn.Sequential(nn.Linear(dim, mlp_dim), nn.Dropout(dropout), nn.GELU(),
                           nn.Linear(mlp_dim, dim), nn.Dropout(dropout))
  self.norm2 = norm_layer(dim)
  \<close>
  with \<open>norm_layer\<close> at its default, \<open>nn.LayerNorm\<close>.
\<close>

definition TransformerBlock_init ::
  "nat \<Rightarrow> nat \<Rightarrow> nat \<Rightarrow> nat \<Rightarrow> real \<Rightarrow> bool \<Rightarrow> (string \<Rightarrow> nat list \<Rightarrow> real) \<Rightarrow> bool
   \<Rightarrow> (string \<Rightarrow> nat list \<Rightarrow> bool) \<Rightarrow> error + transformer_block" where
  "TransformerBlock_init d heads dim_head mlp_dim p qkv_bias vals training msks =
     (case Attention_init d heads dim_head p qkv_bias vals training msks of Inl e \<Rightarrow> Inl e
      | Inr attn \<Rightarrow>
     (case Dropout_init p training msks ''mlp.1'' of Inl e \<Rightarrow> Inl e
      | Inr drop1 \<Rightarrow>
     (case Dropout_init p training msks ''mlp.4'' of Inl e \<Rightarrow> Inl e
      | Inr drop2 \<Rightarrow>
          Inr \<lparr>norm1 = LayerNorm_init d vals ''norm1'',
               attention = attn,
               mlp_fc1 = Linear_init d mlp_dim True vals ''mlp.0'',
               mlp_drop1 = drop1,
               mlp_fc2 = Linear_init mlp_dim d True vals ''mlp.3'',
               mlp_drop2 = drop2,
               norm2 = LayerNorm_init d vals ''norm2''\<rparr>)))"

text \<open>
  \<open>ConvProjection(channels, dim, patch_size)\<close> hands the constructor's \<open>patch_size\<close>
  argument itself to \<open>nn.Conv2d\<close>, which reads an integer as a square and a tuple as it
  is, as \<open>pair\<close> does. A negative size is a \<open>RuntimeError\<close> of the engine.
\<close>

definition ConvProjection_init ::
  "nat \<Rightarrow> nat \<Rightarrow> pyval \<Rightarrow> (string \<Rightarrow> nat list \<Rightarrow> real) \<Rightarrow> error + patch_embedding" where
  "ConvProjection_init channels d patch_size vals =
     (case pair patch_size of
        PyTuple [PyInt kh, PyInt kw] \<Rightarrow>
          if kh < 0 \<or> kw < 0 then Inl RuntimeError
          else Inr (ConvProjection
                 \<lparr>in_channels = channels, out_channels = d, kernel_h = nat kh, kernel_w = nat kw,
                  conv_weight =
                    (\<lambda>j ch p q. vals ''patch_to_embedding.projection.weight'' [j, ch, p, q]),
                  conv_bias = (\<lambda>j. vals ''patch_to_embedding.projection.bias'' [j])\<rparr>)
      | _ \<Rightarrow> Inl TypeError)"

text \<open>The list comprehension over \<open>range(depth)\<close>: the first exception ends it.\<close>

fun collect :: "(error + 'a) list \<Rightarrow> error + 'a list" where
  "collect [] = Inr []"
| "collect (Inl e # rest) = Inl e"
| "collect (Inr v # rest) = (case collect rest of Inl e \<Rightarrow> Inl e | Inr vs \<Rightarrow> Inr (v # vs))"

text \<open>
  \<open>ViT.__init__\<close> (with \<open>norm_layer\<close> at its default). A negative size of a parameter
  is a \<open>RuntimeError\<close> of the engine.
  \<^verbatim>\<open>
  self.patch_to_embedding = nn.Sequential(
      Rearrange('b c (h ph) (w pw) -> b (h w) (ph pw c)', ph=patch_height, pw=patch_width),
      nn.Linear(patch_dim, dim)) if projection=='linear' else ConvProjection(channels, dim, patch_size)
  self.pos_embedding = nn.Parameter(torch.randn(1, num_patches + 1, dim))
  self.cls_token = nn.Parameter(torch.randn(1, 1, dim))
  self.dropout = nn.Dropout(emb_dropout)
  self.layers = nn.ModuleList([TransformerBlock(dim, heads, dim_head, mlp_dim, dropout,
      qkv_bias=qkv_bias, norm_layer=norm_layer) for _ in range(depth)])
  self.pool = pool
  self.norm = norm_layer(dim)
  \<close>
\<close>

definition ViT_init ::
  "pyval \<Rightarrow> pyval \<Rightarrow> nat \<Rightarrow> nat \<Rightarrow> nat \<Rightarrow> nat \<Rightarrow> nat \<Rightarrow> nat \<Rightarrow> bool \<Rightarrow> string \<Rightarrow> real \<Rightarrow> real
   \<Rightarrow> bool \<Rightarrow> initial \<Rightarrow> error + vit" where
  "ViT_init image_size patch_size channels d depth heads mlp_dim dim_head pool_flag projection
     p emb_dropout qkv_bias ini =
     (case ViT_init_sizes image_size patch_size (int channels) of Inl e \<Rightarrow> Inl e
      | Inr sz \<Rightarrow>
     (case (if projection = ''linear''
            then (if sz_patch_dim sz < 0 then Inl RuntimeError
                  else Inr (LinearPatches (sz_patch_height sz) (sz_patch_width sz)
                         (Linear_init (nat (sz_patch_dim sz)) d True (ini_values ini)
                            ''patch_to_embedding.1'')))
            else ConvProjection_init channels d patch_size (ini_values ini)) of Inl e \<Rightarrow> Inl e
      | Inr embedding \<Rightarrow>
          if sz_num_patches sz + 1 < 0 then Inl RuntimeError
          else
     (case Dropout_init emb_dropout (ini_training ini) (ini_masks ini) ''dropout'' of
        Inl e \<Rightarrow> Inl e
      | Inr emb_drop \<Rightarrow>
     (case collect (map (\<lambda>l. TransformerBlock_init d heads dim_head mlp_dim p qkv_bias
                               (ini_layer_values ini l) (ini_training ini)
                               (ini_layer_masks ini l)) [0..<depth]) of
        Inl e \<Rightarrow> Inl e
      | Inr blocks \<Rightarrow>
          Inr \<lparr>patch_height = sz_patch_height sz,
               patch_width = sz_patch_width sz,
               patch_to_embedding = embedding,
               pos_embedding =
                 \<lparr>shape = [1, nat (sz_num_patches sz + 1), d],
                  elem = ini_values ini ''pos_embedding''\<rparr>,
               cls_token = \<lparr>shape = [1, 1, d], elem = ini_values ini ''cls_token''\<rparr>,
               vit_dropout = emb_drop,
               layers = blocks,
               pool = pool_flag,
               vit_norm = LayerNorm_init d (ini_values ini) ''norm''\<rparr>))))"


section \<open>Initialisation of the weights\<close>

text \<open>
  \<open>_no_grad_trunc_normal_(tensor, mean, std, a, b)\<close>. The call of \<open>warnings.warn\<close> is
  recorded in the list of warnings, which is there whether or not an exception follows.
  \<open>draw lo hi ix\<close> is the sample \<open>tensor.uniform_(lo, hi)\<close> writes at index \<open>ix\<close> for the
  random state of the call; \<open>uniform_\<close> raises \<open>RuntimeError\<close> when \<open>lo > hi\<close>, and the
  float division by \<open>std = 0\<close> is a \<open>ZeroDivisionError\<close>.
  \<^verbatim>\<open>
  def norm_cdf(x):
      return (1. + math.erf(x / math.sqrt(2.))) / 2.
  if (mean < a - 2 * std) or (mean > b + 2 * std):
      warnings.warn("mean is more than 2 std from [a, b] in nn.init.trunc_normal_. "
                    "The distribution of values may be incorrect.", stacklevel=2)
  with torch.no_grad():
      l = norm_cdf((a - mean) / std)
      u = norm_cdf((b - mean) / std)
      tensor.uniform_(2 * l - 1, 2 * u - 1)
      tensor.erfinv_()
      tensor.mul_(std * math.sqrt(2.))
      tensor.add_(mean)
      tensor.clamp_(min=a, max=b)
      return tensor
  \<close>
\<close>

datatype warning = MeanMoreThanTwoStdFromBounds

definition norm_cdf :: "engine \<Rightarrow> real \<Rightarrow> real" where
  "norm_cdf eng x = (1 + erf eng (x / sqrt 2)) / 2"

text \<open>\<open>clamp_(min=a, max=b)\<close> takes the maximum with \<open>a\<close> first, then the minimum with \<open>b\<close>.\<close>

definition clamp_value :: "real \<Rightarrow> real \<Rightarrow> real \<Rightarrow> real" where
  "clamp_value a b v = min (max v a) b"

definition no_grad_trunc_normal ::
  "engine \<Rightarrow> (real \<Rightarrow> real \<Rightarrow> nat list \<Rightarrow> real) \<Rightarrow> tensor \<Rightarrow> real \<Rightarrow> real \<Rightarrow> real \<Rightarrow> real
   \<Rightarrow> warning list \<times> (error + tensor)" where
  "no_grad_trunc_normal eng draw tensor mean std a b =
     (if mean < a - 2 * std \<or> mean > b + 2 * std then [MeanMoreThanTwoStdFromBounds] else [],
      if std = 0 then Inl ZeroDivisionError
      else
        let l = norm_cdf eng ((a - mean) / std);
            u = norm_cdf eng ((b - mean) / std)
        in if 2 * l - 1 > 2 * u - 1 then Inl RuntimeError
           else Inr \<lparr>shape = shape tensor,
                     elem = (\<lambda>ix. clamp_value a b
                                (erfinv eng (draw (2 * l - 1) (2 * u - 1) ix) * (std * sqrt 2)
                                 + mean))\<rparr>)"

text \<open>\<^verbatim>\<open>def trunc_normal_(tensor, mean=0., std=1., a=-2., b=2.)\<close>\<close>

definition trunc_normal ::
  "engine \<Rightarrow> (real \<Rightarrow> real \<Rightarrow> nat list \<Rightarrow> real) \<Rightarrow> tensor \<Rightarrow> real \<Rightarrow> real \<Rightarrow> real \<Rightarrow> real
   \<Rightarrow> warning list \<times> (error + tensor)" where
  "trunc_normal eng draw tensor mean std a b = no_grad_trunc_normal eng draw tensor mean std a b"

text \<open>
  The classes of the modules a \<open>ViT\<close> consists of, which \<open>ViT._init_weights\<close> tells apart
  with \<open>isinstance\<close>. A container carries no parameter of its own but the \<open>ViT\<close>, which
  holds \<open>pos_embedding\<close> and \<open>cls_token\<close>; the traversal that visits the children is the
  caller's (\<open>nn.Module.apply\<close>).
\<close>

datatype module =
    M_Linear linear
  | M_LayerNorm layernorm
  | M_Conv2d conv2d
  | M_Dropout dropout
  | M_GELU
  | M_Softmax
  | M_Rearrange int int
  | M_Sequential
  | M_ModuleList
  | M_Attention
  | M_TransformerBlock
  | M_ConvProjection
  | M_ViT tensor tensor

definition weight_tensor :: "linear \<Rightarrow> tensor" where
  "weight_tensor m =
     \<lparr>shape = [out_features m, in_features m], elem = (\<lambda>ix. lin_weight m (ix ! 0) (ix ! 1))\<rparr>"

text \<open>
  \<^verbatim>\<open>
  def _init_weights(self, m):
      if isinstance(m, nn.Linear):
          trunc_normal_(m.weight, std=.02)
          if isinstance(m, nn.Linear) and m.bias is not None:
              nn.init.constant_(m.bias, 0)
      elif isinstance(m, nn.LayerNorm):
          nn.init.constant_(m.bias, 0)
          nn.init.constant_(m.weight, 1.0)
  \<close>
  The module is changed in place; the model returns the module after the call.
\<close>

fun init_weights ::
  "engine \<Rightarrow> (real \<Rightarrow> real \<Rightarrow> nat list \<Rightarrow> real) \<Rightarrow> module \<Rightarrow> warning list \<times> (error + module)" where
  "init_weights eng draw (M_Linear m) =
     (case trunc_normal eng draw (weight_tensor m) 0 (2 / 100) (- 2) 2 of
        (ws, Inl e) \<Rightarrow> (ws, Inl e)
      | (ws, Inr t) \<Rightarrow>
          (ws, Inr (M_Linear (m\<lparr>lin_weight := (\<lambda>j i. elem t [j, i]),
                                lin_bias := map_option (\<lambda>b j. 0) (lin_bias m)\<rparr>))))"
| "init_weights eng draw (M_LayerNorm m) =
     ([], Inr (M_LayerNorm (m\<lparr>ln_bias := (\<lambda>j. 0), ln_weight := (\<lambda>j. 1)\<rparr>)))"
| "init_weights eng draw m = ([], Inr m)"


section \<open>Sizes of constructed modules\<close>

text \<open>
  What the constructors fix about the sizes of the modules they build; every statement
  below about a constructed module rests on these and on nothing else of the
  constructor. An index is in the range of a shape when it has one component per axis,
  each below the size of the axis.
\<close>

definition in_range :: "nat list \<Rightarrow> nat list \<Rightarrow> bool" where
  "in_range s ix \<longleftrightarrow> length ix = length s \<and> list_all2 (\<lambda>i n. i < n) ix s"

definition attention_dims :: "nat \<Rightarrow> nat \<Rightarrow> nat \<Rightarrow> attention \<Rightarrow> bool" where
  "attention_dims d heads dim_head m \<longleftrightarrow>
     0 < dim_head \<and> attn_heads m = heads
     \<and> in_features (to_qkv m) = d \<and> out_features (to_qkv m) = dim_head * heads * 3
     \<and> in_features (to_out_linear m) = dim_head * heads \<and> out_features (to_out_linear m) = d"

definition block_dims :: "nat \<Rightarrow> nat \<Rightarrow> nat \<Rightarrow> nat \<Rightarrow> transformer_block \<Rightarrow> bool" where
  "block_dims d heads dim_head mlp_dim blk \<longleftrightarrow>
     ln_dim (norm1 blk) = d \<and> ln_dim (norm2 blk) = d
     \<and> attention_dims d heads dim_head (attention blk)
     \<and> in_features (mlp_fc1 blk) = d \<and> out_features (mlp_fc1 blk) = mlp_dim
     \<and> in_features (mlp_fc2 blk) = mlp_dim \<and> out_features (mlp_fc2 blk) = d"

section \<open>The block as the specification states it\<close>

text \<open>
  The composition the specification states for the block, written out for comparison
  with \<open>TransformerBlock_forward\<close>: \<open>t = norm1(x) + attention(norm1(x))\<close> and the output
  \<open>t + mlp(norm2(t))\<close>, the second residual being added to \<open>t\<close> itself.
\<close>

definition prenorm_residual_spec :: "engine \<Rightarrow> transformer_block \<Rightarrow> tensor \<Rightarrow> error + tensor" where
  "prenorm_residual_spec eng blk x =
     (case LayerNorm_forward (norm1 blk) x of Inl e \<Rightarrow> Inl e
      | Inr n1 \<Rightarrow>
     (case Attention_forward (attention blk) n1 of Inl e \<Rightarrow> Inl e
      | Inr a \<Rightarrow>
     (case tensor_add n1 a of Inl e \<Rightarrow> Inl e
      | Inr t \<Rightarrow>
     (case LayerNorm_forward (norm2 blk) t of Inl e \<Rightarrow> Inl e
      | Inr n2 \<Rightarrow>
     (case mlp_forward eng blk n2 of Inl e \<Rightarrow> Inl e
      | Inr m \<Rightarrow> tensor_add t m)))))"

text \<open>The entry of a result at an index, or the exception.\<close>

definition entry_of :: "error + tensor \<Rightarrow> nat list \<Rightarrow> error + real" where
  "entry_of r ix = (case r of Inl e \<Rightarrow> Inl e | Inr t \<Rightarrow> Inr (elem t ix))"

section \<open>Concrete instances\<close>

text \<open>
  Small modules and inputs on which the theorems below are applied. \<open>engine0\<close> stands in
  for the engine with simple functions of the right kind: a non-decreasing \<open>erf\<close> with
  values in \<open>[-1, 1]\<close>, and an interpolation that returns a grid of the size asked for,
  rounded down as the engine's does. \<open>engine_up\<close> is an engine whose interpolation
  rounds the size of the grid up instead.
\<close>

definition ones :: "nat list \<Rightarrow> tensor" where
  "ones s = \<lparr>shape = s, elem = (\<lambda>ix. 1)\<rparr>"

definition resize0 :: "tensor \<Rightarrow> real \<times> real \<Rightarrow> error + tensor" where
  "resize0 t sf =
     (case shape t of
        [b, c, gh, gw] \<Rightarrow>
          Inr \<lparr>shape = [b, c, nat \<lfloor>real gh * fst sf\<rfloor>, nat \<lfloor>real gw * snd sf\<rfloor>],
               elem = (\<lambda>ix. elem t [ix ! 0, ix ! 1, 0, 0])\<rparr>
      | _ \<Rightarrow> Inl RuntimeError)"

definition resize_up :: "tensor \<Rightarrow> real \<times> real \<Rightarrow> error + tensor" where
  "resize_up t sf =
     (case shape t of
        [b, c, gh, gw] \<Rightarrow>
          Inr \<lparr>shape = [b, c, nat \<lceil>real gh * fst sf\<rceil>, nat \<lceil>real gw * snd sf\<rceil>],
               elem = (\<lambda>ix. elem t [ix ! 0, ix ! 1, 0, 0])\<rparr>
      | _ \<Rightarrow> Inl RuntimeError)"

definition engine0 :: engine where
  "engine0 =
     \<lparr>erf = (\<lambda>x. max (- 1) (min 1 x)), erfinv = (\<lambda>y. y), gelu = (\<lambda>x. max 0 x),
      interpolate_bicubic = resize0\<rparr>"

definition engine_up :: engine where
  "engine_up = engine0\<lparr>interpolate_bicubic := resize_up\<rparr>"

text \<open>
  Parameter values: every weight and bias is 1, but the bias of \<open>norm2\<close> in a block,
  which is 5; no dropout, evaluation mode.
\<close>

definition values0 :: "string \<Rightarrow> nat list \<Rightarrow> real" where
  "values0 name ix = (if name = ''norm2.bias'' then 5 else 1)"

definition initial0 :: initial where
  "initial0 =
     \<lparr>ini_values = (\<lambda>name ix. 1), ini_layer_values = (\<lambda>l. values0),
      ini_masks = (\<lambda>name ix. True), ini_layer_masks = (\<lambda>l name ix. True),
      ini_training = False\<rparr>"

text \<open>
  An attention module with one head on two-dimensional vectors, a block with one head
  on one-dimensional vectors, and single modules of the three classes with parameters.
\<close>

definition attention0 :: attention where
  "attention0 =
     projr (Attention_init 2 1 1 0 False (\<lambda>name ix. 1) False (\<lambda>name ix. True))"

definition block0 :: transformer_block where
  "block0 = projr (TransformerBlock_init 1 1 1 1 0 False values0 False (\<lambda>name ix. True))"

definition linear0 :: linear where
  "linear0 = Linear_init 3 2 True (\<lambda>name ix. 7) ''fc''"

definition layernorm0 :: layernorm where
  "layernorm0 = LayerNorm_init 2 (\<lambda>name ix. 7) ''norm''"

definition conv0 :: conv2d where
  "conv0 =
     \<lparr>in_channels = 1, out_channels = 2, kernel_h = 1, kernel_w = 1,
      conv_weight = (\<lambda>j ch p q. 7), conv_bias = (\<lambda>j. 7)\<rparr>"

text \<open>
  An encoder for 4 by 4 images with one channel, cut into four 2 by 2 patches and
  embedded in two dimensions by the linear variant, with one block of one head; its
  stored positional grid is a square of side 2. \<open>vit0_conv\<close> is the same with the
  convolutional variant, \<open>vit0_mean\<close> with mean pooling.
\<close>

definition vit0 :: vit where
  "vit0 = projr (ViT_init (PyInt 4) (PyInt 2) 1 2 1 1 2 1 False ''linear'' 0 0 False initial0)"

definition vit0_conv :: vit where
  "vit0_conv = projr (ViT_init (PyInt 4) (PyInt 2) 1 2 1 1 2 1 False ''conv'' 0 0 False initial0)"

definition vit0_mean :: vit where
  "vit0_mean = projr (ViT_init (PyInt 4) (PyInt 2) 1 2 1 1 2 1 True ''linear'' 0 0 False initial0)"

text \<open>
  An encoder for 32 by 16 images with three channels and 16 by 16 patches, so with a
  grid of two patches by one: \<open>ViT(image_size=(32, 16), patch_size=16, channels=3, dim=8,
  depth=1, heads=2, mlp_dim=16, dim_head=4)\<close>.
\<close>

definition vit_rect :: vit where
  "vit_rect =
     projr (ViT_init (PyTuple [PyInt 32, PyInt 16]) (PyInt 16) 3 8 1 2 16 4 False ''linear''
              0 0 False initial0)"

section \<open>Properties\<close>

subsection \<open>The size arguments\<close>

text \<open>
  Claim C10. \<open>pair\<close> maps every argument that is not a tuple to the pair of it with
  itself and returns every tuple as it is. So the constructor takes \<open>image_size\<close> and
  \<open>patch_size\<close> each as one integer, read as a square, or as a tuple of height and
  width, and the patch count it stores is the product of the two floor divisions,
  \<open>(image_height // patch_height) * (image_width // patch_width)\<close>.
\<close>

theorem pair_patch_count:
  assumes "image_size = PyInt s \<and> ih = s \<and> iw = s \<or> image_size = PyTuple [PyInt ih, PyInt iw]"
      and "patch_size = PyInt p \<and> ph = p \<and> pw = p \<or> patch_size = PyTuple [PyInt ph, PyInt pw]"
      and "ph \<noteq> 0" and "pw \<noteq> 0"
  shows "(\<forall>t. (\<forall>ts. t \<noteq> PyTuple ts) \<longrightarrow> pair t = PyTuple [t, t])
       \<and> (\<forall>ts. pair (PyTuple ts) = PyTuple ts)
       \<and> ViT_init_sizes image_size patch_size channels =
           Inr \<lparr>sz_patch_height = ph, sz_patch_width = pw,
                sz_num_patches = (ih div ph) * (iw div pw),
                sz_patch_dim = ph * pw * channels\<rparr>"
proof -
  have nontuple: "pair t = PyTuple [t, t]" if "\<forall>ts. t \<noteq> PyTuple ts" for t
    using that by (cases t) simp_all
  have img: "unpack2 (pair image_size) = Inr (PyInt ih, PyInt iw)"
    using assms(1) by auto
  have pat: "unpack2 (pair patch_size) = Inr (PyInt ph, PyInt pw)"
    using assms(2) by auto
  show ?thesis
    using nontuple assms(3,4) by (simp add: ViT_init_sizes_def img pat)
qed

theorem pair_patch_count_witness:
  "pair (PyInt 224) = PyTuple [PyInt 224, PyInt 224]
   \<and> pair (PyTuple [PyInt 16, PyInt 16]) = PyTuple [PyInt 16, PyInt 16]
   \<and> ViT_init_sizes (PyInt 224) (PyTuple [PyInt 16, PyInt 16]) 3 =
        Inr \<lparr>sz_patch_height = 16, sz_patch_width = 16, sz_num_patches = 196, sz_patch_dim = 768\<rparr>"
  using pair_patch_count [of "PyInt 224" 224 224 224 "PyTuple [PyInt 16, PyInt 16]" 0 16 16 3]
  by simp

subsection \<open>Attention weights\<close>

lemma softmax_row_sum:
  assumes "0 < last (shape x)"
  shows "(\<Sum>k<last (shape x). elem (softmax x) (along_last ix k)) = 1"
proof -
  let ?Z = "\<Sum>k<last (shape x). exp (elem x (along_last ix k))"
  have pos: "0 < ?Z"
    using assms by (intro sum_pos) auto
  have "(\<Sum>k<last (shape x). elem (softmax x) (along_last ix k))
        = (\<Sum>k<last (shape x). exp (elem x (along_last ix k)) / ?Z)"
    by (simp add: softmax_def along_last_def)
  also have "\<dots> = ?Z / ?Z"
    by (rule sum_divide_distrib [symmetric])
  also have "\<dots> = 1"
    using pos by simp
  finally show ?thesis .
qed

lemma Linear_forward_shape:
  "Linear_forward m x = Inr y \<Longrightarrow> shape y = butlast (shape x) @ [out_features m]"
  by (auto simp: Linear_forward_def split: if_splits)

lemma split_heads_shape:
  "split_heads heads t = Inr y \<Longrightarrow>
     \<exists>b n c. shape t = [b, n, c] \<and> shape y = [b, heads, n, c div heads]"
  by (auto simp: split_heads_def split: list.splits if_splits)

lemma chunk_last_shape:
  "c \<in> set (chunk_last chunks y) \<Longrightarrow> butlast (shape c) = butlast (shape y)"
  by (auto simp: chunk_last_def narrow_last_def Let_def split: if_splits)

lemma Attention_qkv_shapes:
  assumes "Attention_qkv m x = Inr (q, k, v)"
  shows "\<exists>b n dq dk dv. shape q = [b, attn_heads m, n, dq] \<and> shape k = [b, attn_heads m, n, dk]
          \<and> shape v = [b, attn_heads m, n, dv] \<and> butlast (shape x) = [b, n]"
proof -
  from assms obtain y cq ck cv where
    y: "Linear_forward (to_qkv m) x = Inr y" and
    ch: "chunk_last 3 y = [cq, ck, cv]" and
    q: "split_heads (attn_heads m) cq = Inr q" and
    k: "split_heads (attn_heads m) ck = Inr k" and
    v: "split_heads (attn_heads m) cv = Inr v"
    by (auto simp: Attention_qkv_def split: sum.splits list.splits)
  have "cq \<in> set (chunk_last 3 y)" "ck \<in> set (chunk_last 3 y)" "cv \<in> set (chunk_last 3 y)"
    by (simp_all add: ch)
  then have same: "butlast (shape cq) = butlast (shape y)" "butlast (shape ck) = butlast (shape y)"
    "butlast (shape cv) = butlast (shape y)"
    by (auto dest: chunk_last_shape)
  from split_heads_shape [OF q] obtain b n c where
    cq: "shape cq = [b, n, c]" and sq: "shape q = [b, attn_heads m, n, c div attn_heads m]"
    by auto
  from split_heads_shape [OF k] obtain b' n' c' where
    ck: "shape ck = [b', n', c']" and sk: "shape k = [b', attn_heads m, n', c' div attn_heads m]"
    by auto
  from split_heads_shape [OF v] obtain b'' n'' c'' where
    cv: "shape cv = [b'', n'', c'']" and sv: "shape v = [b'', attn_heads m, n'', c'' div attn_heads m]"
    by auto
  have "[b', n'] = [b, n]" "[b'', n''] = [b, n]"
    using same cq ck cv by simp_all
  moreover have "butlast (shape x) = [b, n]"
    using same(1) cq Linear_forward_shape [OF y] by simp
  ultimately show ?thesis
    using sq sk sv by simp
qed

text \<open>
  Claim C5. Whenever \<open>Attention.forward\<close> gets as far as the softmax, the weights it
  yields have one row per batch element, head and query position, as long as there are
  key positions, and every such row sums to 1 over the key axis (the last one). The
  numbers are real numbers here, so the sum is 1 exactly.
\<close>

theorem attention_weights_sum_to_one:
  assumes "Attention_weights m x = Inr weights"
  shows "\<exists>B N. shape weights = [B, attn_heads m, N, N]
          \<and> (\<forall>b<B. \<forall>h<attn_heads m. \<forall>n<N. (\<Sum>k<N. elem weights [b, h, n, k]) = 1)"
proof -
  from assms obtain q k v scores where
    qkv: "Attention_qkv m x = Inr (q, k, v)" and
    sc: "einsum_qk q k = Inr scores" and
    w: "weights = softmax (scale_by (attn_scale m) scores)"
    by (auto simp: Attention_weights_def split: sum.splits prod.splits)
  from Attention_qkv_shapes [OF qkv] obtain B N dq dk where
    sq: "shape q = [B, attn_heads m, N, dq]" and sk: "shape k = [B, attn_heads m, N, dk]"
    by auto
  have ss: "shape scores = [B, attn_heads m, N, N]"
    using sc sq sk by (auto simp: einsum_qk_def split: if_splits)
  let ?s = "scale_by (attn_scale m) scores"
  have sh: "shape ?s = [B, attn_heads m, N, N]"
    by (simp add: scale_by_def ss)
  have "shape weights = [B, attn_heads m, N, N]"
    by (simp add: w softmax_def sh)
  moreover have "(\<Sum>k<N. elem weights [b, h, n, k]) = 1" if "n < N" for b h n
  proof -
    have "0 < last (shape ?s)" using that by (simp add: sh)
    from softmax_row_sum [OF this, of "[b, h, n, 0]"] show ?thesis
      by (simp add: w sh along_last_def)
  qed
  ultimately show ?thesis by blast
qed

lemma upt_3: "[0..<3] = [0, 1, 2]"
  by (simp add: upt_rec)

lemma attention0_weights:
  "\<exists>w. Attention_weights attention0 (ones [1, 2, 2]) = Inr w \<and> shape w = [1, 1, 2, 2]"
  by (simp add: attention0_def Attention_init_def Dropout_init_def Attention_weights_def
      Attention_qkv_def Linear_forward_def Linear_init_def ones_def chunk_last_def
      narrow_last_def upt_3 split_heads_def einsum_qk_def softmax_def scale_by_def)

theorem attention_weights_sum_to_one_witness:
  "\<exists>w. Attention_weights attention0 (ones [1, 2, 2]) = Inr w \<and> shape w = [1, 1, 2, 2]
       \<and> (\<Sum>k<2. elem w [0, 0, 0, k]) = 1 \<and> (\<Sum>k<2. elem w [0, 0, 1, k]) = 1"
proof -
  from attention0_weights obtain w where
    w: "Attention_weights attention0 (ones [1, 2, 2]) = Inr w" and sw: "shape w = [1, 1, 2, 2]"
    by blast
  from attention_weights_sum_to_one [OF w] sw
  have "\<forall>n<2. (\<Sum>k<2. elem w [0, 0, n, k]) = 1"
    by auto
  then show ?thesis
    using w sw by auto
qed

subsection \<open>Initialisation\<close>

lemma norm_cdf_mono:
  assumes "mono (erf eng)" "x \<le> y"
  shows "norm_cdf eng x \<le> norm_cdf eng y"
proof -
  have "x / sqrt 2 \<le> y / sqrt 2"
    using assms(2) by (simp add: divide_right_mono)
  then have "erf eng (x / sqrt 2) \<le> erf eng (y / sqrt 2)"
    using assms(1) by (simp add: monoD)
  then show ?thesis by (simp add: norm_cdf_def)
qed

lemma clamp_value_bounds: "a \<le> b \<Longrightarrow> a \<le> clamp_value a b v \<and> clamp_value a b v \<le> b"
  by (simp add: clamp_value_def)

lemma trunc_normal_result:
  assumes "0 < std" "a \<le> b" "mono (erf eng)"
  shows "trunc_normal eng draw tensor mean std a b =
           (if mean < a - 2 * std \<or> mean > b + 2 * std then [MeanMoreThanTwoStdFromBounds] else [],
            Inr \<lparr>shape = shape tensor,
                 elem = (\<lambda>ix. clamp_value a b
                    (erfinv eng (draw (2 * norm_cdf eng ((a - mean) / std) - 1)
                                      (2 * norm_cdf eng ((b - mean) / std) - 1) ix)
                     * (std * sqrt 2) + mean))\<rparr>)"
proof -
  have "(a - mean) / std \<le> (b - mean) / std"
    using assms(1,2) by (simp add: divide_right_mono)
  then have "norm_cdf eng ((a - mean) / std) \<le> norm_cdf eng ((b - mean) / std)"
    using assms(3) by (simp add: norm_cdf_mono)
  then show ?thesis
    using assms(1) by (simp add: trunc_normal_def no_grad_trunc_normal_def Let_def)
qed

lemma mono_erf0: "mono (erf engine0)"
  by (auto simp: engine0_def mono_def)

text \<open>
  Claim C6. For a positive \<open>std\<close> and bounds \<open>a \<le> b\<close> (and an \<open>erf\<close> that is
  non-decreasing, as the error function is), \<open>trunc_normal_\<close> raises nothing and
  returns the tensor, of the shape it had, with every entry in \<open>[a, b]\<close>; and it has
  warned exactly when \<open>mean < a - 2 * std\<close> or \<open>mean > b + 2 * std\<close>.
\<close>

theorem trunc_normal_within_bounds:
  assumes "0 < std" and "a \<le> b" and "mono (erf eng)"
  shows "\<exists>t. trunc_normal eng draw tensor mean std a b =
               (if mean < a - 2 * std \<or> mean > b + 2 * std
                then [MeanMoreThanTwoStdFromBounds] else [], Inr t)
             \<and> shape t = shape tensor
             \<and> (\<forall>ix. a \<le> elem t ix \<and> elem t ix \<le> b)"
  using assms(2) by (simp add: trunc_normal_result [OF assms] clamp_value_bounds)

theorem trunc_normal_within_bounds_witness:
  "(0::real) < 1 \<and> (- 2::real) \<le> 2 \<and> mono (erf engine0)
   \<and> (\<exists>t. trunc_normal engine0 (\<lambda>lo hi ix. hi) (ones [2, 3]) 5 1 (- 2) 2 =
              ([MeanMoreThanTwoStdFromBounds], Inr t)
          \<and> shape t = [2, 3]
          \<and> (\<forall>ix. - 2 \<le> elem t ix \<and> elem t ix \<le> 2))"
  using trunc_normal_within_bounds [of 1 "- 2" 2 engine0 "\<lambda>lo hi ix. hi" "ones [2, 3]" 5] mono_erf0
  by (simp add: ones_def)

text \<open>
  Claim C9. \<open>_init_weights\<close> changes the parameters of \<open>nn.Linear\<close> and \<open>nn.LayerNorm\<close>
  modules only. A module of any other class comes back as it was, with no warning; so
  does in particular the \<open>nn.Conv2d\<close> of the convolutional projection, whose weights
  therefore never get the truncated-normal initialisation. A \<open>LayerNorm\<close> gets weight 1
  and bias 0. A \<open>Linear\<close> gets the weights \<open>trunc_normal_\<close> draws with mean 0, std 0.02
  and bounds -2 and 2, all of them in \<open>[-2, 2]\<close>, and a zero bias where it has one.
\<close>

theorem init_weights_frame:
  "(\<forall>m. (\<forall>l. m \<noteq> M_Linear l) \<and> (\<forall>n. m \<noteq> M_LayerNorm n)
        \<longrightarrow> init_weights eng draw m = ([], Inr m))
   \<and> init_weights eng draw (M_Conv2d conv) = ([], Inr (M_Conv2d conv))
   \<and> init_weights eng draw (M_LayerNorm lnorm) =
        ([], Inr (M_LayerNorm (lnorm\<lparr>ln_bias := (\<lambda>j. 0), ln_weight := (\<lambda>j. 1)\<rparr>)))
   \<and> (mono (erf eng) \<longrightarrow>
        (\<exists>w. init_weights eng draw (M_Linear lin) =
               ([], Inr (M_Linear (lin\<lparr>lin_weight := w,
                                       lin_bias := map_option (\<lambda>b j. 0) (lin_bias lin)\<rparr>)))
            \<and> (\<forall>j i. w j i = clamp_value (- 2) 2
                   (erfinv eng (draw (2 * norm_cdf eng (- 2 / (2 / 100)) - 1)
                                     (2 * norm_cdf eng (2 / (2 / 100)) - 1) [j, i])
                    * (2 / 100 * sqrt 2)))
            \<and> (\<forall>j i. - 2 \<le> w j i \<and> w j i \<le> 2)))"
proof (intro conjI allI impI)
  fix m assume "(\<forall>l. m \<noteq> M_Linear l) \<and> (\<forall>n. m \<noteq> M_LayerNorm n)"
  then show "init_weights eng draw m = ([], Inr m)"
    by (cases m) simp_all
next
  show "init_weights eng draw (M_Conv2d conv) = ([], Inr (M_Conv2d conv))"
    by simp
next
  show "init_weights eng draw (M_LayerNorm lnorm) =
        ([], Inr (M_LayerNorm (lnorm\<lparr>ln_bias := (\<lambda>j. 0), ln_weight := (\<lambda>j. 1)\<rparr>)))"
    by simp
next
  assume mono: "mono (erf eng)"
  have std: "(0::real) < 2 / 100" and ab: "(- 2::real) \<le> 2"
    by simp_all
  show "\<exists>w. init_weights eng draw (M_Linear lin) =
               ([], Inr (M_Linear (lin\<lparr>lin_weight := w,
                                       lin_bias := map_option (\<lambda>b j. 0) (lin_bias lin)\<rparr>)))
            \<and> (\<forall>j i. w j i = clamp_value (- 2) 2
                   (erfinv eng (draw (2 * norm_cdf eng (- 2 / (2 / 100)) - 1)
                                     (2 * norm_cdf eng (2 / (2 / 100)) - 1) [j, i])
                    * (2 / 100 * sqrt 2)))
            \<and> (\<forall>j i. - 2 \<le> w j i \<and> w j i \<le> 2)"
    unfolding init_weights.simps trunc_normal_result [OF std ab mono]
    using clamp_value_bounds [OF ab]
    by (intro exI [of _ "\<lambda>j i. clamp_value (- 2) 2
                   (erfinv eng (draw (2 * norm_cdf eng (- 2 / (2 / 100)) - 1)
                                     (2 * norm_cdf eng (2 / (2 / 100)) - 1) [j, i])
                    * (2 / 100 * sqrt 2))"])
       (simp add: weight_tensor_def)
qed

theorem init_weights_frame_witness:
  "init_weights engine0 (\<lambda>lo hi ix. hi) M_GELU = ([], Inr M_GELU)
   \<and> init_weights engine0 (\<lambda>lo hi ix. hi) (M_Conv2d conv0) = ([], Inr (M_Conv2d conv0))
   \<and> init_weights engine0 (\<lambda>lo hi ix. hi) (M_LayerNorm layernorm0) =
        ([], Inr (M_LayerNorm (layernorm0\<lparr>ln_bias := (\<lambda>j. 0), ln_weight := (\<lambda>j. 1)\<rparr>)))
   \<and> mono (erf engine0)
   \<and> (\<exists>w. init_weights engine0 (\<lambda>lo hi ix. hi) (M_Linear linear0) =
              ([], Inr (M_Linear (linear0\<lparr>lin_weight := w, lin_bias := Some (\<lambda>j. 0)\<rparr>)))
          \<and> (\<forall>j i. - 2 \<le> w j i \<and> w j i \<le> 2))"
proof -
  note frame = init_weights_frame [of engine0 "\<lambda>lo hi ix. hi" conv0 layernorm0 linear0]
  have bias: "map_option (\<lambda>b j. 0::real) (lin_bias linear0) = Some (\<lambda>j. 0)"
    by (simp add: linear0_def Linear_init_def)
  from frame have "init_weights engine0 (\<lambda>lo hi ix. hi) M_GELU = ([], Inr M_GELU)"
    by simp
  moreover from frame mono_erf0
  have "\<exists>w. init_weights engine0 (\<lambda>lo hi ix. hi) (M_Linear linear0) =
              ([], Inr (M_Linear (linear0\<lparr>lin_weight := w, lin_bias := Some (\<lambda>j. 0)\<rparr>)))
          \<and> (\<forall>j i. - 2 \<le> w j i \<and> w j i \<le> 2)"
    unfolding bias by blast
  ultimately show ?thesis
    using frame mono_erf0 by blast
qed

subsection \<open>Shapes\<close>

lemma broadcast_rev_same: "broadcast_rev xs xs = Some xs"
  by (induction xs) simp_all

lemma broadcast_shapes_same: "broadcast_shapes s s = Some s"
  by (simp add: broadcast_shapes_def broadcast_rev_same)

lemma bcast_index_in_range: "in_range s ix \<Longrightarrow> bcast_index s ix = ix"
  by (auto simp: in_range_def bcast_index_def list_eq_iff_nth_eq list_all2_conv_all_nth)

lemma tensor_add_same_shape:
  assumes "shape y = shape x"
  shows "\<exists>r. tensor_add x y = Inr r \<and> shape r = shape x
           \<and> (\<forall>ix. in_range (shape x) ix \<longrightarrow> elem r ix = elem x ix + elem y ix)"
  by (simp add: tensor_add_def assms broadcast_shapes_same bcast_index_in_range)

lemma LayerNorm_forward_shape:
  "LayerNorm_forward m x = Inr y \<Longrightarrow>
     shape y = shape x \<and> shape x \<noteq> [] \<and> last (shape x) = ln_dim m"
  by (auto simp: LayerNorm_forward_def split: if_splits)

lemma LayerNorm_forward_returns:
  "shape x \<noteq> [] \<Longrightarrow> last (shape x) = ln_dim m \<Longrightarrow> \<exists>y. LayerNorm_forward m x = Inr y"
  by (simp add: LayerNorm_forward_def)

lemma Linear_forward_last:
  "Linear_forward m x = Inr y \<Longrightarrow> shape x \<noteq> [] \<and> last (shape x) = in_features m"
  by (auto simp: Linear_forward_def split: if_splits)

lemma Linear_forward_returns:
  "shape x \<noteq> [] \<Longrightarrow> last (shape x) = in_features m \<Longrightarrow>
     \<exists>y. Linear_forward m x = Inr y \<and> shape y = butlast (shape x) @ [out_features m]"
  by (simp add: Linear_forward_def)

lemma Dropout_forward_shape: "shape (Dropout_forward m x) = shape x"
  by (simp add: Dropout_forward_def)

lemma GELU_forward_shape: "shape (GELU_forward eng x) = shape x"
  by (simp add: GELU_forward_def)

lemma chunk_last_thirds:
  assumes "last (shape y) = 3 * k" "0 < k"
  shows "chunk_last 3 y =
           [narrow_last y 0 k, narrow_last y k (2 * k), narrow_last y (2 * k) (3 * k)]"
proof -
  have step: "(3 * k + 3 - 1) div 3 = k"
    by simp
  have count: "(3 * k + k - 1) div k = 3"
    using assms(2) by (intro div_nat_eqI) auto
  have "[0..<3] = [0, 1, 2]"
    by (simp add: upt_rec)
  then show ?thesis
    unfolding chunk_last_def Let_def assms(1) step count
    using assms(2) by (simp add: mult_2)
qed

lemma Attention_init_dims:
  "Attention_init d heads dim_head p qkv_bias vals training msks = Inr m \<Longrightarrow>
     attention_dims d heads dim_head m"
  by (auto simp: Attention_init_def attention_dims_def Linear_init_def Let_def
      split: if_splits sum.splits)

lemma TransformerBlock_init_dims:
  "TransformerBlock_init d heads dim_head mlp_dim p qkv_bias vals training msks = Inr blk \<Longrightarrow>
     block_dims d heads dim_head mlp_dim blk"
  by (auto simp: TransformerBlock_init_def block_dims_def Linear_init_def LayerNorm_init_def
      dest: Attention_init_dims split: sum.splits)

lemma Attention_qkv_returns:
  assumes dims: "attention_dims d heads dim_head m" and heads: "0 < heads"
      and x: "shape x = [b, n, d]"
  shows "\<exists>q k v. Attention_qkv m x = Inr (q, k, v)
           \<and> shape q = [b, heads, n, dim_head] \<and> shape k = [b, heads, n, dim_head]
           \<and> shape v = [b, heads, n, dim_head]"
proof -
  let ?k = "dim_head * heads"
  from dims have dh: "0 < dim_head" and hm: "attn_heads m = heads"
    and qi: "in_features (to_qkv m) = d" and qo: "out_features (to_qkv m) = 3 * ?k"
    by (simp_all add: attention_dims_def)
  from Linear_forward_returns [of x "to_qkv m"] x qi qo obtain y where
    y: "Linear_forward (to_qkv m) x = Inr y" and sy: "shape y = [b, n, 3 * ?k]"
    by auto
  have k: "0 < ?k" using dh heads by simp
  have ch: "chunk_last 3 y =
      [narrow_last y 0 ?k, narrow_last y ?k (2 * ?k), narrow_last y (2 * ?k) (3 * ?k)]"
    using dh heads by (intro chunk_last_thirds) (simp_all add: sy)
  have sh: "shape (narrow_last y 0 ?k) = [b, n, ?k]"
    "shape (narrow_last y ?k (2 * ?k)) = [b, n, ?k]"
    "shape (narrow_last y (2 * ?k) (3 * ?k)) = [b, n, ?k]"
    by (simp_all add: narrow_last_def sy)
  show ?thesis
    using heads dh by (simp add: Attention_qkv_def y ch split_heads_def sh hm)
qed

lemma Attention_forward_returns:
  assumes dims: "attention_dims d heads dim_head m" and heads: "0 < heads"
      and x: "shape x = [b, n, d]"
  shows "\<exists>y. Attention_forward m x = Inr y \<and> shape y = [b, n, d]"
proof -
  from Attention_qkv_returns [OF assms] obtain q k v where
    qkv: "Attention_qkv m x = Inr (q, k, v)"
    and sq: "shape q = [b, heads, n, dim_head]" and sk: "shape k = [b, heads, n, dim_head]"
    and sv: "shape v = [b, heads, n, dim_head]"
    by blast
  from dims have hm: "attn_heads m = heads"
    and oi: "in_features (to_out_linear m) = dim_head * heads"
    and oo: "out_features (to_out_linear m) = d"
    by (simp_all add: attention_dims_def)
  obtain scores where sc: "einsum_qk q k = Inr scores" and ss: "shape scores = [b, heads, n, n]"
    by (simp add: einsum_qk_def sq sk)
  let ?w = "softmax (scale_by (attn_scale m) scores)"
  have w: "Attention_weights m x = Inr ?w"
    by (simp add: Attention_weights_def qkv sc)
  have sw: "shape (Dropout_forward (attn_dropout m) ?w) = [b, heads, n, n]"
    by (simp add: Dropout_forward_shape softmax_def scale_by_def ss)
  obtain out where out: "einsum_av (Dropout_forward (attn_dropout m) ?w) v = Inr out"
    and so: "shape out = [b, heads, n, dim_head]"
    by (simp add: einsum_av_def sw sv)
  obtain merged where mg: "merge_heads (attn_heads m) out = Inr merged"
    and sm: "shape merged = [b, n, heads * dim_head]"
    by (simp add: merge_heads_def so hm)
  from Linear_forward_returns [of merged "to_out_linear m"] sm oi oo obtain y where
    y: "Linear_forward (to_out_linear m) merged = Inr y" and sy: "shape y = [b, n, d]"
    by (auto simp: mult.commute)
  show ?thesis
    by (simp add: Attention_forward_def qkv w out mg y Dropout_forward_shape sy)
qed

lemma Attention_forward_shape:
  assumes dims: "attention_dims d heads dim_head m"
      and y: "Attention_forward m x = Inr y"
  shows "shape y = shape x \<and> (\<exists>b n. shape x = [b, n, d])"
proof -
  from y obtain q k v where qkv: "Attention_qkv m x = Inr (q, k, v)"
    by (auto simp: Attention_forward_def split: sum.splits prod.splits)
  from Attention_qkv_shapes [OF qkv] obtain b n where bl: "butlast (shape x) = [b, n]"
    by blast
  from qkv obtain z where z: "Linear_forward (to_qkv m) x = Inr z"
    by (auto simp: Attention_qkv_def split: sum.splits)
  from Linear_forward_last [OF z] dims have "shape x \<noteq> []" "last (shape x) = d"
    by (simp_all add: attention_dims_def)
  then have sx: "shape x = [b, n, d]"
    using bl by (metis append_butlast_last_id append_Cons append_Nil)
  have heads: "0 < attn_heads m"
    using qkv by (auto simp: Attention_qkv_def split_heads_def
        split: sum.splits list.splits if_splits)
  from dims have "attn_heads m = heads" by (simp add: attention_dims_def)
  with heads have "0 < heads" by simp
  from Attention_forward_returns [OF dims this sx] y sx show ?thesis
    by auto
qed
lemma mlp_forward_returns:
  assumes dims: "block_dims d heads dim_head mlp_dim blk"
      and x: "shape x \<noteq> []" "last (shape x) = d"
  shows "\<exists>y. mlp_forward eng blk x = Inr y \<and> shape y = shape x"
proof -
  from dims have f1: "in_features (mlp_fc1 blk) = d" "out_features (mlp_fc1 blk) = mlp_dim"
    and f2: "in_features (mlp_fc2 blk) = mlp_dim" "out_features (mlp_fc2 blk) = d"
    by (simp_all add: block_dims_def)
  from Linear_forward_returns [of x "mlp_fc1 blk"] x f1 obtain h where
    h: "Linear_forward (mlp_fc1 blk) x = Inr h" and sh: "shape h = butlast (shape x) @ [mlp_dim]"
    by auto
  let ?g = "GELU_forward eng (Dropout_forward (mlp_drop1 blk) h)"
  have sg: "shape ?g = butlast (shape x) @ [mlp_dim]"
    by (simp add: GELU_forward_shape Dropout_forward_shape sh)
  from Linear_forward_returns [of ?g "mlp_fc2 blk"] sg f2 obtain y where
    y: "Linear_forward (mlp_fc2 blk) ?g = Inr y" and sy: "shape y = butlast (shape x) @ [d]"
    by auto
  have "butlast (shape x) @ [d] = shape x"
    using x by (metis append_butlast_last_id)
  then show ?thesis
    by (simp add: mlp_forward_def h y Dropout_forward_shape sy)
qed

text \<open>
  The block on a constructed module, step by step: when it returns, each of its four
  assignments to \<open>x\<close> has succeeded, every intermediate tensor has the shape of the
  input, which is a batch of sequences of \<open>d\<close>-vectors, and the two additions are
  entrywise.
\<close>

lemma TransformerBlock_forward_steps:
  assumes dims: "block_dims d heads dim_head mlp_dim blk"
      and y: "TransformerBlock_forward eng blk x = Inr y"
  shows "\<exists>n1 a t n2 m.
           LayerNorm_forward (norm1 blk) x = Inr n1
         \<and> Attention_forward (attention blk) n1 = Inr a
         \<and> tensor_add n1 a = Inr t
         \<and> LayerNorm_forward (norm2 blk) t = Inr n2
         \<and> mlp_forward eng blk n2 = Inr m
         \<and> tensor_add n2 m = Inr y
         \<and> (\<exists>b n. shape x = [b, n, d])
         \<and> shape n1 = shape x \<and> shape a = shape x \<and> shape t = shape x
         \<and> shape n2 = shape x \<and> shape m = shape x \<and> shape y = shape x
         \<and> (\<forall>ix. in_range (shape x) ix \<longrightarrow>
               elem t ix = elem n1 ix + elem a ix \<and> elem y ix = elem n2 ix + elem m ix)"
proof -
  from y obtain n1 a t n2 m where
    n1: "LayerNorm_forward (norm1 blk) x = Inr n1" and
    a: "Attention_forward (attention blk) n1 = Inr a" and
    t: "tensor_add n1 a = Inr t" and
    n2: "LayerNorm_forward (norm2 blk) t = Inr n2" and
    m: "mlp_forward eng blk n2 = Inr m" and
    r: "tensor_add n2 m = Inr y"
    by (auto simp: TransformerBlock_forward_def split: sum.splits)
  from dims have ad: "attention_dims d heads dim_head (attention blk)"
    and l2: "ln_dim (norm2 blk) = d"
    by (simp_all add: block_dims_def)
  have s1: "shape n1 = shape x"
    using LayerNorm_forward_shape [OF n1] by simp
  from Attention_forward_shape [OF ad a] obtain b n where
    sa: "shape a = shape n1" and sx: "shape n1 = [b, n, d]"
    by blast
  from tensor_add_same_shape [OF sa] t have st: "shape t = shape n1"
    and et: "\<forall>ix. in_range (shape n1) ix \<longrightarrow> elem t ix = elem n1 ix + elem a ix"
    by auto
  have s2: "shape n2 = shape t"
    using LayerNorm_forward_shape [OF n2] by simp
  have "shape n2 \<noteq> []" "last (shape n2) = d"
    by (simp_all add: s2 st sx)
  from mlp_forward_returns [OF dims this, of eng] m have sm: "shape m = shape n2"
    by auto
  from tensor_add_same_shape [OF sm] r have sy: "shape y = shape n2"
    and ey: "\<forall>ix. in_range (shape n2) ix \<longrightarrow> elem y ix = elem n2 ix + elem m ix"
    by auto
  have shapes: "shape n1 = shape x" "shape a = shape x" "shape t = shape x"
    "shape n2 = shape x" "shape m = shape x" "shape y = shape x" "shape x = [b, n, d]"
    using s1 sa sx st s2 sm sy by simp_all
  show ?thesis
    using n1 a t n2 m r shapes et ey
    by (intro exI [of _ n1] exI [of _ a] exI [of _ t] exI [of _ n2] exI [of _ m]) simp
qed

lemma TransformerBlock_forward_returns:
  assumes dims: "block_dims d heads dim_head mlp_dim blk" and heads: "0 < heads"
      and x: "shape x = [b, n, d]"
  shows "\<exists>y. TransformerBlock_forward eng blk x = Inr y \<and> shape y = shape x"
proof -
  from dims have ad: "attention_dims d heads dim_head (attention blk)"
    and l1: "ln_dim (norm1 blk) = d" and l2: "ln_dim (norm2 blk) = d"
    by (simp_all add: block_dims_def)
  from LayerNorm_forward_returns [of x "norm1 blk"] x l1 obtain n1 where
    n1: "LayerNorm_forward (norm1 blk) x = Inr n1"
    by auto
  have s1: "shape n1 = [b, n, d]"
    using LayerNorm_forward_shape [OF n1] x by simp
  from Attention_forward_returns [OF ad heads s1] obtain a where
    a: "Attention_forward (attention blk) n1 = Inr a" and sa: "shape a = shape n1"
    using s1 by auto
  from tensor_add_same_shape [OF sa] obtain t where
    t: "tensor_add n1 a = Inr t" and st: "shape t = [b, n, d]"
    using s1 by auto
  from LayerNorm_forward_returns [of t "norm2 blk"] st l2 obtain n2 where
    n2: "LayerNorm_forward (norm2 blk) t = Inr n2"
    by auto
  have s2: "shape n2 = [b, n, d]"
    using LayerNorm_forward_shape [OF n2] st by simp
  from mlp_forward_returns [OF dims, of n2 eng] s2 obtain m where
    m: "mlp_forward eng blk n2 = Inr m" and sm: "shape m = shape n2"
    by auto
  from tensor_add_same_shape [OF sm] obtain y where
    r: "tensor_add n2 m = Inr y" and sy: "shape y = [b, n, d]"
    using s2 by auto
  show ?thesis
    by (simp add: TransformerBlock_forward_def n1 a t n2 m r sy x)
qed

lemma layers_forward_shape:
  assumes "list_all (block_dims d heads dim_head mlp_dim) blocks"
      and "layers_forward eng blocks x = Inr y"
  shows "shape y = shape x"
  using assms
proof (induction blocks arbitrary: x)
  case Nil
  then show ?case by simp
next
  case (Cons blk rest)
  from Cons.prems(2) obtain z where
    z: "TransformerBlock_forward eng blk x = Inr z" and
    y: "layers_forward eng rest z = Inr y"
    by (auto split: sum.splits)
  from Cons.prems(1) have "block_dims d heads dim_head mlp_dim blk"
    and rest: "list_all (block_dims d heads dim_head mlp_dim) rest"
    by simp_all
  from TransformerBlock_forward_steps [OF this(1) z] have "shape z = shape x"
    by blast
  with Cons.IH [OF rest y] show ?case by simp
qed

lemma layers_forward_returns:
  assumes "list_all (block_dims d heads dim_head mlp_dim) blocks" and "0 < heads"
      and "shape x = [b, n, d]"
  shows "\<exists>y. layers_forward eng blocks x = Inr y \<and> shape y = shape x"
  using assms
proof (induction blocks arbitrary: x)
  case Nil
  then show ?case by simp
next
  case (Cons blk rest)
  from Cons.prems(1) have blk: "block_dims d heads dim_head mlp_dim blk"
    and rest: "list_all (block_dims d heads dim_head mlp_dim) rest"
    by simp_all
  from TransformerBlock_forward_returns [OF blk Cons.prems(2,3)] obtain z where
    z: "TransformerBlock_forward eng blk x = Inr z" and sz: "shape z = shape x"
    by blast
  from Cons.IH [OF rest Cons.prems(2), of z] sz Cons.prems(3) obtain y where
    "layers_forward eng rest z = Inr y" "shape y = shape z"
    by auto
  then show ?case
    by (simp add: z sz)
qed

lemma collect_all:
  "collect rs = Inr vs \<Longrightarrow> list_all2 (\<lambda>r v. r = Inr v) rs vs"
proof (induction rs arbitrary: vs rule: collect.induct)
  case 1
  then show ?case by simp
next
  case (2 e rest)
  then show ?case by simp
next
  case (3 v rest)
  then show ?case by (auto split: sum.splits)
qed

lemma collect_blocks_dims:
  assumes "collect (map (\<lambda>l. TransformerBlock_init d heads dim_head mlp_dim p qkv_bias
             (vals l) training (msks l)) ls) = Inr blocks"
  shows "list_all (block_dims d heads dim_head mlp_dim) blocks \<and> length blocks = length ls"
proof -
  from collect_all [OF assms] have all2:
    "list_all2 (\<lambda>r v. r = Inr v)
       (map (\<lambda>l. TransformerBlock_init d heads dim_head mlp_dim p qkv_bias
             (vals l) training (msks l)) ls) blocks" .
  then have len: "length blocks = length ls"
    by (auto dest: list_all2_lengthD)
  have "block_dims d heads dim_head mlp_dim (blocks ! i)" if "i < length blocks" for i
  proof -
    from all2 that len have
      "TransformerBlock_init d heads dim_head mlp_dim p qkv_bias
         (vals (ls ! i)) training (msks (ls ! i)) = Inr (blocks ! i)"
      by (auto simp: list_all2_conv_all_nth)
    then show ?thesis by (rule TransformerBlock_init_dims)
  qed
  then show ?thesis
    using len by (simp add: list_all_length)
qed

subsection \<open>The transformer block\<close>

lemma block0_init:
  "TransformerBlock_init 1 1 1 1 0 False values0 False (\<lambda>name ix. True) = Inr block0"
  by (simp add: block0_def TransformerBlock_init_def Attention_init_def Dropout_init_def)

text \<open>
  Claim C1, as the code has it. For a constructed block with at least one head and
  every input \<open>x\<close> that is a batch of sequences of \<open>d\<close>-vectors, the block returns, and
  with \<open>n1 = norm1(x)\<close>, \<open>t = n1 + attention(n1)\<close> and \<open>n2 = norm2(t)\<close> the output is
  \<open>n2 + mlp(n2)\<close>: the second residual adds the MLP output to the normalised
  intermediate \<open>n2\<close>, as the first adds the attention output to the normalised input.
\<close>

theorem transformer_block_composition:
  assumes "TransformerBlock_init d heads dim_head mlp_dim p qkv_bias vals training msks = Inr blk"
      and "0 < heads" and "shape x = [b, n, d]"
  shows "\<exists>n1 a t n2 m y.
           LayerNorm_forward (norm1 blk) x = Inr n1
         \<and> Attention_forward (attention blk) n1 = Inr a
         \<and> LayerNorm_forward (norm2 blk) t = Inr n2
         \<and> mlp_forward eng blk n2 = Inr m
         \<and> TransformerBlock_forward eng blk x = Inr y
         \<and> shape t = shape x \<and> shape y = shape x
         \<and> (\<forall>ix. in_range (shape x) ix \<longrightarrow>
               elem t ix = elem n1 ix + elem a ix \<and> elem y ix = elem n2 ix + elem m ix)"
proof -
  note dims = TransformerBlock_init_dims [OF assms(1)]
  from TransformerBlock_forward_returns [OF dims assms(2,3), of eng] obtain y where
    y: "TransformerBlock_forward eng blk x = Inr y"
    by blast
  from TransformerBlock_forward_steps [OF dims y] obtain n1 a t n2 m where
    "LayerNorm_forward (norm1 blk) x = Inr n1"
    "Attention_forward (attention blk) n1 = Inr a"
    "LayerNorm_forward (norm2 blk) t = Inr n2"
    "mlp_forward eng blk n2 = Inr m"
    "shape t = shape x" "shape y = shape x"
    "\<forall>ix. in_range (shape x) ix \<longrightarrow>
       elem t ix = elem n1 ix + elem a ix \<and> elem y ix = elem n2 ix + elem m ix"
    by blast
  with y show ?thesis
    by (intro exI [of _ n1] exI [of _ a] exI [of _ t] exI [of _ n2] exI [of _ m] exI [of _ y])
      simp
qed

theorem transformer_block_composition_witness:
  "TransformerBlock_init 1 1 1 1 0 False values0 False (\<lambda>name ix. True) = Inr block0
   \<and> (0::nat) < 1 \<and> shape (ones [1, 1, 1]) = [1, 1, 1]
   \<and> (\<exists>n1 a t n2 m y.
           LayerNorm_forward (norm1 block0) (ones [1, 1, 1]) = Inr n1
         \<and> Attention_forward (attention block0) n1 = Inr a
         \<and> LayerNorm_forward (norm2 block0) t = Inr n2
         \<and> mlp_forward engine0 block0 n2 = Inr m
         \<and> TransformerBlock_forward engine0 block0 (ones [1, 1, 1]) = Inr y
         \<and> shape t = [1, 1, 1] \<and> shape y = [1, 1, 1]
         \<and> elem t [0, 0, 0] = elem n1 [0, 0, 0] + elem a [0, 0, 0]
         \<and> elem y [0, 0, 0] = elem n2 [0, 0, 0] + elem m [0, 0, 0])"
proof -
  have sx: "shape (ones [1, 1, 1]) = [1, 1, 1]"
    by (simp add: ones_def)
  have r: "in_range [1, 1, 1] [0, 0, 0]"
    by (simp add: in_range_def)
  from transformer_block_composition [OF block0_init _ sx, of engine0] r
  show ?thesis
    unfolding sx using block0_init by (simp only: simp_thms zero_less_one) blast
qed

theorem transformer_block_counterexample:
  "entry_of (TransformerBlock_forward engine0 block0 (ones [1, 1, 1])) [0, 0, 0] = Inr 12
   \<and> entry_of (prenorm_residual_spec engine0 block0 (ones [1, 1, 1])) [0, 0, 0] = Inr 10"
  by (simp add: entry_of_def TransformerBlock_forward_def prenorm_residual_spec_def
      block0_def TransformerBlock_init_def Attention_init_def Dropout_init_def
      LayerNorm_init_def Linear_init_def values0_def ones_def engine0_def
      LayerNorm_forward_def row_mean_def row_var_def along_last_def
      Attention_forward_def Attention_weights_def Attention_qkv_def Linear_forward_def
      chunk_last_def narrow_last_def upt_3 split_heads_def einsum_qk_def einsum_av_def
      merge_heads_def softmax_def scale_by_def Dropout_forward_def mlp_forward_def
      GELU_forward_def tensor_add_def broadcast_shapes_def bcast_index_def)

subsection \<open>The constructed encoder\<close>

lemma ViT_init_fields:
  assumes "ViT_init image_size patch_size channels d depth heads mlp_dim dim_head pool_flag
             projection p emb_dropout qkv_bias ini = Inr self"
  shows "\<exists>sz. ViT_init_sizes image_size patch_size (int channels) = Inr sz
           \<and> patch_height self = sz_patch_height sz \<and> patch_width self = sz_patch_width sz
           \<and> 0 \<le> sz_num_patches sz + 1
           \<and> shape (pos_embedding self) = [1, nat (sz_num_patches sz + 1), d]
           \<and> shape (cls_token self) = [1, 1, d]
           \<and> list_all (block_dims d heads dim_head mlp_dim) (layers self)
           \<and> length (layers self) = depth
           \<and> ln_dim (vit_norm self) = d \<and> pool self = pool_flag"
proof -
  from assms obtain sz embedding emb_drop blocks where
    sz: "ViT_init_sizes image_size patch_size (int channels) = Inr sz" and
    np: "\<not> sz_num_patches sz + 1 < 0" and
    blocks: "collect (map (\<lambda>l. TransformerBlock_init d heads dim_head mlp_dim p qkv_bias
               (ini_layer_values ini l) (ini_training ini) (ini_layer_masks ini l))
               [0..<depth]) = Inr blocks" and
    self: "self = \<lparr>patch_height = sz_patch_height sz, patch_width = sz_patch_width sz,
              patch_to_embedding = embedding,
              pos_embedding = \<lparr>shape = [1, nat (sz_num_patches sz + 1), d],
                                elem = ini_values ini ''pos_embedding''\<rparr>,
              cls_token = \<lparr>shape = [1, 1, d], elem = ini_values ini ''cls_token''\<rparr>,
              vit_dropout = emb_drop, layers = blocks, pool = pool_flag,
              vit_norm = LayerNorm_init d (ini_values ini) ''norm''\<rparr>"
    unfolding ViT_init_def by (auto split: sum.splits if_splits)
  from collect_blocks_dims [OF blocks]
  have "list_all (block_dims d heads dim_head mlp_dim) blocks" "length blocks = depth"
    by simp_all
  then show ?thesis
    using sz np by (simp add: self LayerNorm_init_def)
qed

lemma ViT_init_embedding:
  assumes "ViT_init image_size patch_size channels d depth heads mlp_dim dim_head pool_flag
             projection p emb_dropout qkv_bias ini = Inr self"
      and "ViT_init_sizes image_size patch_size (int channels) = Inr sz"
  shows "if projection = ''linear''
         then \<exists>lin. patch_to_embedding self
                      = LinearPatches (sz_patch_height sz) (sz_patch_width sz) lin
                \<and> in_features lin = nat (sz_patch_dim sz) \<and> out_features lin = d
         else \<exists>conv. patch_to_embedding self = ConvProjection conv
                \<and> in_channels conv = channels \<and> out_channels conv = d
                \<and> int (kernel_h conv) = sz_patch_height sz
                \<and> int (kernel_w conv) = sz_patch_width sz"
proof (cases "projection = ''linear''")
  case True
  with assms show ?thesis
    unfolding ViT_init_def by (auto simp: Linear_init_def split: sum.splits if_splits)
next
  case False
  from assms(2) obtain ih iw ph pw where
    pp: "unpack2 (pair patch_size) = Inr (PyInt ph, PyInt pw)" and
    szh: "sz_patch_height sz = ph" and szw: "sz_patch_width sz = pw"
    unfolding ViT_init_sizes_def
    by (auto split: sum.splits prod.splits pyval.splits)
  have "pair patch_size = PyTuple [PyInt ph, PyInt pw]"
    using pp by (cases "pair patch_size" rule: unpack2.cases) (auto elim: pair.elims)
  with False assms show ?thesis
    unfolding ViT_init_def ConvProjection_init_def
    by (auto simp: szh szw split: sum.splits if_splits)
qed

subsection \<open>Positional encoding\<close>

lemma int_trunc_tenth: "0 \<le> k \<Longrightarrow> int_trunc (real_of_int k + 0.1) = k"
proof -
  assume k: "0 \<le> k"
  have "\<lfloor>real_of_int k + 0.1\<rfloor> = k"
    by (rule floor_unique) simp_all
  with k show ?thesis
    by (simp add: int_trunc_def)
qed

lemma int_trunc_sqrt_square: "nat (int_trunc (sqrt (real (s * s)))) = s"
  by (simp add: int_trunc_def)

lemma interpolate_fast_path:
  assumes "shape x = b # n # rest" and "shape (pos_embedding self) = [p0, n, pd]"
  shows "interpolate_pos_encoding eng self x w w = Inr (pos_embedding self)"
  by (simp add: interpolate_pos_encoding_def assms)

lemma grid_to_sequence_shape:
  assumes "shape g = [1, d, gh, gw]" and "0 < d"
  shows "\<exists>t. grid_to_sequence d g = Inr t \<and> shape t = [1, gh * gw, d]"
  using assms by (simp add: grid_to_sequence_def)

text \<open>
  The general path on an encoder whose stored grid is a square of side \<open>s\<close>: up to the
  call of the interpolation nothing raises, and what follows depends on the size of the
  grid \<open>g\<close> that the interpolation returns.
\<close>

lemma interpolate_general_path:
  assumes pos: "shape (pos_embedding self) = [1, s * s + 1, d]" and s: "0 < s"
      and ph: "0 < patch_height self" and pw: "0 < patch_width self"
      and x: "shape x = [b, n, d]" and d: "0 < d"
      and general: "\<not> (n = s * s + 1 \<and> w = h)"
      and interp: "interpolate_bicubic eng (pos_grid (pos_embedding self) s d)
                     ((real_of_int (int h div patch_height self) + 0.1) / sqrt (real (s * s)),
                      (real_of_int (int w div patch_width self) + 0.1) / sqrt (real (s * s)))
                   = Inr g"
      and g: "shape g = [1, d, gh, gw]"
  shows "interpolate_pos_encoding eng self x w h =
           (if int gh = int h div patch_height self \<and> int gw = int w div patch_width self
            then (case grid_to_sequence d g of
                    Inl e \<Rightarrow> Inl e
                  | Inr patch \<Rightarrow> cat_class_pos (pos_embedding self) patch)
            else Inl AssertionError)"
proof -
  have h0: "int_trunc (real_of_int (int h div patch_height self) + 0.1)
              = int h div patch_height self"
    using ph by (intro int_trunc_tenth) (simp add: pos_imp_zdiv_nonneg_iff)
  have w0: "int_trunc (real_of_int (int w div patch_width self) + 0.1)
              = int w div patch_width self"
    using pw by (intro int_trunc_tenth) (simp add: pos_imp_zdiv_nonneg_iff)
  have side: "int_trunc (real s) = int s"
    by (simp add: int_trunc_def)
  have natN: "nat (int s * int s) = s * s"
    by (simp add: nat_mult_distrib)
  show ?thesis
    unfolding interpolate_pos_encoding_def pos x Let_def
    using general ph pw d s interp g h0 w0
    by (auto simp: side natN eq_commute [of "int h div patch_height self"]
        eq_commute [of "int w div patch_width self"])
qed

lemma upt_1: "[0..<1] = [0]"
  by (simp add: upt_rec)

lemma vit0_init:
  "ViT_init (PyInt 4) (PyInt 2) 1 2 1 1 2 1 False ''linear'' 0 0 False initial0 = Inr vit0"
  by (simp add: vit0_def ViT_init_def ViT_init_sizes_def Dropout_init_def upt_1
      TransformerBlock_init_def Attention_init_def initial0_def)

lemma vit0_conv_init:
  "ViT_init (PyInt 4) (PyInt 2) 1 2 1 1 2 1 False ''conv'' 0 0 False initial0 = Inr vit0_conv"
  by (simp add: vit0_conv_def ViT_init_def ViT_init_sizes_def Dropout_init_def upt_1
      TransformerBlock_init_def Attention_init_def initial0_def ConvProjection_init_def)

lemma cat_class_pos_shape:
  assumes "shape pos = [1, p1, d]" and "shape patch = [1, k, d]"
  shows "\<exists>t. cat_class_pos pos patch = Inr t \<and> shape t = [1, k + 1, d]
           \<and> (\<forall>c. elem t [0, 0, c] = elem pos [0, 0, c])"
  by (simp add: cat_class_pos_def assms)

text \<open>
  Claim C3. On the general path of an encoder whose stored grid is a square of side
  \<open>s\<close> (what the reshape needs), with positive patch sizes and an input sequence of
  \<open>d\<close>-vectors, let the interpolation return a grid \<open>g\<close> of \<open>gh\<close> by \<open>gw\<close> vectors.
  If \<open>gh\<close> and \<open>gw\<close> are the truncated targets \<open>h // patch_height\<close> and
  \<open>w // patch_width\<close>, the function returns a tensor of
  \<open>(h // patch_height) * (w // patch_width) + 1\<close> positions, the stored class-token
  row first; if they are not, it raises \<open>AssertionError\<close> and returns nothing.
\<close>

theorem interpolate_general_path_outcome:
  assumes pos: "shape (pos_embedding self) = [1, s * s + 1, d]" and s: "0 < s"
      and ph: "0 < patch_height self" and pw: "0 < patch_width self"
      and x: "shape x = [b, n, d]" and d: "0 < d"
      and general: "\<not> (n = s * s + 1 \<and> w = h)"
      and interp: "interpolate_bicubic eng (pos_grid (pos_embedding self) s d)
                     ((real_of_int (int h div patch_height self) + 0.1) / sqrt (real (s * s)),
                      (real_of_int (int w div patch_width self) + 0.1) / sqrt (real (s * s)))
                   = Inr g"
      and g: "shape g = [1, d, gh, gw]"
  shows "if int gh = int h div patch_height self \<and> int gw = int w div patch_width self
         then \<exists>t. interpolate_pos_encoding eng self x w h = Inr t
                \<and> shape t = [1, nat (int h div patch_height self)
                                  * nat (int w div patch_width self) + 1, d]
                \<and> (\<forall>c. elem t [0, 0, c] = elem (pos_embedding self) [0, 0, c])
         else interpolate_pos_encoding eng self x w h = Inl AssertionError"
proof (cases "int gh = int h div patch_height self \<and> int gw = int w div patch_width self")
  case True
  from grid_to_sequence_shape [OF g d] obtain patch where
    patch: "grid_to_sequence d g = Inr patch" and sp: "shape patch = [1, gh * gw, d]"
    by blast
  from cat_class_pos_shape [OF pos sp] obtain t where
    t: "cat_class_pos (pos_embedding self) patch = Inr t" and st: "shape t = [1, gh * gw + 1, d]"
    and cls: "\<forall>c. elem t [0, 0, c] = elem (pos_embedding self) [0, 0, c]"
    by blast
  have sizes: "nat (int h div patch_height self) = gh" "nat (int w div patch_width self) = gw"
    using True by (simp_all flip: True)
  have "interpolate_pos_encoding eng self x w h = Inr t"
    by (simp only: interpolate_general_path [OF assms] if_P [OF True] patch sum.case t)
  with st cls have "\<exists>t. interpolate_pos_encoding eng self x w h = Inr t
                \<and> shape t = [1, nat (int h div patch_height self)
                                  * nat (int w div patch_width self) + 1, d]
                \<and> (\<forall>c. elem t [0, 0, c] = elem (pos_embedding self) [0, 0, c])"
    by (simp add: sizes)
  then show ?thesis
    by (simp only: if_P [OF True])
next
  case False
  show ?thesis
    by (simp only: interpolate_general_path [OF assms] if_not_P [OF False])
qed

lemma vit0_pos: "shape (pos_embedding vit0) = [1, 2 * 2 + 1, 2]"
  and vit0_patch: "patch_height vit0 = 2" "patch_width vit0 = 2"
  using ViT_init_fields [OF vit0_init] by (auto simp: ViT_init_sizes_def)

theorem interpolate_general_path_outcome_witness:
  "shape (pos_embedding vit0) = [1, 2 * 2 + 1, 2] \<and> (0::nat) < 2
   \<and> 0 < patch_height vit0 \<and> 0 < patch_width vit0
   \<and> shape (ones [1, 10, 2]) = [1, 10, 2]
   \<and> (\<exists>t. interpolate_pos_encoding engine0 vit0 (ones [1, 10, 2]) 6 6 = Inr t
          \<and> shape t = [1, 10, 2]
          \<and> elem t [0, 0, 1] = elem (pos_embedding vit0) [0, 0, 1])
   \<and> interpolate_pos_encoding engine_up vit0 (ones [1, 10, 2]) 6 6 = Inl AssertionError"
proof -
  have sx: "shape (ones [1, 10, 2]) = [1, 10, 2]"
    by (simp add: ones_def)
  have gen: "\<not> ((10::nat) = 2 * 2 + 1 \<and> (6::nat) = 6)"
    by simp
  have pos: "0 < patch_height vit0" "0 < patch_width vit0"
    by (simp_all add: vit0_patch)
  obtain g where g: "interpolate_bicubic engine0 (pos_grid (pos_embedding vit0) 2 2)
        ((real_of_int (int 6 div patch_height vit0) + 0.1) / sqrt (real (2 * 2)),
         (real_of_int (int 6 div patch_width vit0) + 0.1) / sqrt (real (2 * 2))) = Inr g"
    and sg: "shape g = [1, 2, 3, 3]"
    by (simp add: engine0_def resize0_def pos_grid_def vit0_patch Let_def)
  obtain g' where g': "interpolate_bicubic engine_up (pos_grid (pos_embedding vit0) 2 2)
        ((real_of_int (int 6 div patch_height vit0) + 0.1) / sqrt (real (2 * 2)),
         (real_of_int (int 6 div patch_width vit0) + 0.1) / sqrt (real (2 * 2))) = Inr g'"
    and sg': "shape g' = [1, 2, 4, 4]"
    by (simp add: engine_up_def engine0_def resize_up_def pos_grid_def vit0_patch Let_def)
  from interpolate_general_path_outcome [OF vit0_pos _ pos sx _ gen g sg]
  have ok: "\<exists>t. interpolate_pos_encoding engine0 vit0 (ones [1, 10, 2]) 6 6 = Inr t
          \<and> shape t = [1, 10, 2]
          \<and> elem t [0, 0, 1] = elem (pos_embedding vit0) [0, 0, 1]"
    by (auto simp: vit0_patch)
  from interpolate_general_path_outcome [OF vit0_pos _ pos sx _ gen g' sg']
  have bad: "interpolate_pos_encoding engine_up vit0 (ones [1, 10, 2]) 6 6 = Inl AssertionError"
    by (simp add: vit0_patch)
  show ?thesis
    using vit0_pos pos sx ok bad by simp
qed

lemma int_trunc_sqrt_2: "int_trunc (sqrt 2) = 1"
proof -
  have "sqrt 2 < 2"
    by (rule real_less_lsqrt) simp_all
  then have "\<lfloor>sqrt 2\<rfloor> = 1"
    by (intro floor_unique) simp_all
  then show ?thesis
    by (simp add: int_trunc_def)
qed

lemma vit_rect_init:
  "ViT_init (PyTuple [PyInt 32, PyInt 16]) (PyInt 16) 3 8 1 2 16 4 False ''linear''
     0 0 False initial0 = Inr vit_rect"
  by (simp add: vit_rect_def ViT_init_def ViT_init_sizes_def Dropout_init_def upt_1
      TransformerBlock_init_def Attention_init_def initial0_def)

lemma vit_rect_fields:
  "shape (pos_embedding vit_rect) = [1, 3, 8]" "shape (cls_token vit_rect) = [1, 1, 8]"
  "patch_height vit_rect = 16" "patch_width vit_rect = 16"
  "\<exists>lin. patch_to_embedding vit_rect = LinearPatches 16 16 lin
      \<and> in_features lin = 768 \<and> out_features lin = 8"
  using ViT_init_fields [OF vit_rect_init] ViT_init_embedding [OF vit_rect_init]
  by (auto simp: ViT_init_sizes_def)

text \<open>
  Claim C2 says that an input at the configured resolution gets the stored positional
  embedding back, also for a configured size that is not square. The fast path is
  guarded by \<open>w == h\<close>, so the following evaluation shows what the code does instead
  for the configuration 32 by 16 with patches of 16, whose grid is two patches by one,
  on inputs of exactly that size: the sequence has the stored length 3, but the general
  path is taken, the two stored grid rows do not reshape to a square of side
  \<open>int(sqrt(2)) = 1\<close>, and the engine raises. This holds for every engine, batch size
  and content of the image and of the sequence.
\<close>

theorem rectangular_configuration_misses_fast_path:
  "ViT_init (PyTuple [PyInt 32, PyInt 16]) (PyInt 16) 3 8 1 2 16 4 False ''linear''
     0 0 False initial0 = Inr vit_rect
   \<and> shape (pos_embedding vit_rect) = [1, 32 div 16 * (16 div 16) + 1, 8]
   \<and> interpolate_pos_encoding eng vit_rect \<lparr>shape = [b, 3, 8], elem = f\<rparr> 32 16
       = Inl RuntimeError
   \<and> ViT_forward eng vit_rect \<lparr>shape = [b, 3, 32, 16], elem = f'\<rparr> norm_flag mixup lbda perm
       = Inl RuntimeError"
proof -
  have i: "interpolate_pos_encoding eng vit_rect x 32 16 = Inl RuntimeError"
    if "shape x = [b', 3, 8]" for b' x
    by (simp add: interpolate_pos_encoding_def vit_rect_fields int_trunc_sqrt_2 that)
  from vit_rect_fields(5) obtain lin where
    lin: "patch_to_embedding vit_rect = LinearPatches 16 16 lin"
      "in_features lin = 768" "out_features lin = 8"
    by blast
  let ?x = "\<lparr>shape = [b, 3, 32, 16], elem = f'\<rparr>"
  obtain x1 where x1: "patch_to_embedding_forward (patch_to_embedding vit_rect) ?x = Inr x1"
    and s1: "shape x1 = [b, 2, 8]"
    by (simp add: lin to_patches_def Linear_forward_def)
  obtain cls where cls: "expand_batch (cls_token vit_rect) b = Inr cls"
    and sc: "shape cls = [b, 1, 8]"
    by (cases "b = 1") (simp_all add: expand_batch_def vit_rect_fields)
  obtain x2 where x2: "cat_dim1 cls x1 = Inr x2" and s2: "shape x2 = [b, 3, 8]"
    by (simp add: cat_dim1_def sc s1)
  have "ViT_sequence eng vit_rect ?x norm_flag = Inl RuntimeError"
    by (simp add: ViT_sequence_def x1 cls x2 i [OF s2])
  then show ?thesis
    using vit_rect_init i [of "\<lparr>shape = [b, 3, 8], elem = f\<rparr>" b]
    by (simp add: vit_rect_fields ViT_forward_def)
qed

subsection \<open>Patch embedding\<close>

lemma sum_grouped:
  fixes f :: "nat \<Rightarrow> real"
  shows "(\<Sum>v<m * n. f v) = (\<Sum>i<m. \<Sum>j<n. f (i * n + j))"
proof -
  have "(\<Sum>v<m * n. f v) = (\<Sum>i<m. sum f {i * n..<i * n + n})"
    by (rule sum.nat_group [symmetric])
  also have "\<dots> = (\<Sum>i<m. \<Sum>j<n. f (i * n + j))"
  proof (rule sum.cong [OF refl])
    fix i
    have "sum f {0 + i * n..<n + i * n} = (\<Sum>j\<in>{0..<n}. f (j + i * n))"
      by (rule sum.shift_bounds_nat_ivl)
    then show "sum f {i * n..<i * n + n} = (\<Sum>j<n. f (i * n + j))"
      by (simp add: add.commute atLeast0LessThan)
  qed
  finally show ?thesis .
qed

lemma patch_vector_sum:
  fixes f :: "nat \<Rightarrow> real"
  shows "(\<Sum>v<ph * pw * c. f v) = (\<Sum>p<ph. \<Sum>q<pw. \<Sum>ch<c. f ((p * pw + q) * c + ch))"
proof -
  have "(\<Sum>v<ph * pw * c. f v) = (\<Sum>u<ph * pw. \<Sum>ch<c. f (u * c + ch))"
    by (rule sum_grouped)
  also have "\<dots> = (\<Sum>p<ph. \<Sum>q<pw. \<Sum>ch<c. f ((p * pw + q) * c + ch))"
    by (rule sum_grouped)
  finally show ?thesis .
qed

lemma conv_grid_size:
  fixes k n :: nat
  assumes "0 < k" "0 < n" "n mod k = 0"
  shows "(n - k) div k + 1 = n div k" "k \<le> n"
proof -
  have "n mod k = n" if "n < k"
    using that by simp
  with assms(2,3) have "\<not> n < k"
    by auto
  then show le: "k \<le> n"
    by simp
  show "(n - k) div k + 1 = n div k"
    using le_div_geq [OF assms(1) le] by simp
qed

lemma to_patches_result:
  assumes x: "shape x = [b, c, H, W]" and ph: "0 < ph" and pw: "0 < pw"
      and div: "H mod ph = 0" "W mod pw = 0"
  shows "to_patches (int ph) (int pw) x =
           Inr \<lparr>shape = [b, (H div ph) * (W div pw), ph * pw * c],
                elem = (\<lambda>ix. elem x [ix ! 0, ix ! 2 mod c,
                                      (ix ! 1 div (W div pw)) * ph + ix ! 2 div (pw * c),
                                      (ix ! 1 mod (W div pw)) * pw + (ix ! 2 div c) mod pw])\<rparr>"
  using ph pw div by (simp add: to_patches_def x Let_def)

lemma decode_mixed_radix:
  fixes a r n :: nat
  assumes "r < n"
  shows "(a * n + r) div n = a" "(a * n + r) mod n = r"
  using assms by (simp_all add: div_mult_self3 [of n a r] mod_mult_self3 [of a n r])

lemma decode_patch_index:
  fixes p pw q c ch :: nat
  assumes "q < pw" "ch < c"
  shows "((p * pw + q) * c + ch) mod c = ch"
    and "((p * pw + q) * c + ch) div (pw * c) = p"
    and "(((p * pw + q) * c + ch) div c) mod pw = q"
proof -
  show "((p * pw + q) * c + ch) mod c = ch"
    using assms(2) by (rule decode_mixed_radix(2))
  have dc: "((p * pw + q) * c + ch) div c = p * pw + q"
    using assms(2) by (rule decode_mixed_radix(1))
  show "(((p * pw + q) * c + ch) div c) mod pw = q"
    unfolding dc using assms(1) by (rule decode_mixed_radix(2))
  have "((p * pw + q) * c + ch) div (pw * c) = (((p * pw + q) * c + ch) div c) div pw"
    by (simp only: div_mult2_eq mult.commute [of pw c])
  also have "\<dots> = p"
    unfolding dc using assms(1) by (rule decode_mixed_radix(1))
  finally show "((p * pw + q) * c + ch) div (pw * c) = p" .
qed

lemma linear_patches_entry:
  assumes x: "shape x = [b, c, H, W]" and ph: "0 < ph" and pw: "0 < pw"
      and div: "H mod ph = 0" "W mod pw = 0"
      and lin: "in_features lin = ph * pw * c"
  shows "\<exists>y. patch_to_embedding_forward (LinearPatches (int ph) (int pw) lin) x = Inr y
           \<and> shape y = [b, (H div ph) * (W div pw), out_features lin]
           \<and> (\<forall>bi i j k. j < W div pw \<longrightarrow>
                 elem y [bi, i * (W div pw) + j, k] =
                   (\<Sum>p<ph. \<Sum>q<pw. \<Sum>ch<c.
                      elem x [bi, ch, i * ph + p, j * pw + q]
                      * lin_weight lin k ((p * pw + q) * c + ch))
                   + (case lin_bias lin of None \<Rightarrow> 0 | Some bias \<Rightarrow> bias k))"
proof -
  let ?gw = "W div pw"
  let ?patches = "\<lparr>shape = [b, (H div ph) * ?gw, ph * pw * c],
                elem = (\<lambda>ix. elem x [ix ! 0, ix ! 2 mod c,
                                      (ix ! 1 div ?gw) * ph + ix ! 2 div (pw * c),
                                      (ix ! 1 mod ?gw) * pw + (ix ! 2 div c) mod pw])\<rparr>"
  have tp: "to_patches (int ph) (int pw) x = Inr ?patches"
    by (rule to_patches_result [OF x ph pw div])
  let ?y = "\<lparr>shape = [b, (H div ph) * ?gw, out_features lin],
             elem = (\<lambda>ix. (\<Sum>v<ph * pw * c. elem ?patches (along_last ix v) * lin_weight lin (last ix) v)
                          + (case lin_bias lin of None \<Rightarrow> 0 | Some bias \<Rightarrow> bias (last ix)))\<rparr>"
  have y: "patch_to_embedding_forward (LinearPatches (int ph) (int pw) lin) x = Inr ?y"
    by (simp add: tp Linear_forward_def lin)
  have entry: "elem ?y [bi, i * ?gw + j, k] =
                   (\<Sum>p<ph. \<Sum>q<pw. \<Sum>ch<c.
                      elem x [bi, ch, i * ph + p, j * pw + q]
                      * lin_weight lin k ((p * pw + q) * c + ch))
                   + (case lin_bias lin of None \<Rightarrow> 0 | Some bias \<Rightarrow> bias k)"
    if j: "j < ?gw" for bi i j k
  proof -
    have "(\<Sum>v<ph * pw * c. elem ?patches [bi, i * ?gw + j, v] * lin_weight lin k v)
          = (\<Sum>p<ph. \<Sum>q<pw. \<Sum>ch<c.
               elem ?patches [bi, i * ?gw + j, (p * pw + q) * c + ch]
               * lin_weight lin k ((p * pw + q) * c + ch))"
      by (rule patch_vector_sum)
    also have "\<dots> = (\<Sum>p<ph. \<Sum>q<pw. \<Sum>ch<c.
               elem x [bi, ch, i * ph + p, j * pw + q]
               * lin_weight lin k ((p * pw + q) * c + ch))"
    proof (intro sum.cong refl)
      fix p q ch
      assume "q \<in> {..<pw}" "ch \<in> {..<c}"
      then have q: "q < pw" and ch: "ch < c"
        by simp_all
      show "elem ?patches [bi, i * ?gw + j, (p * pw + q) * c + ch]
               * lin_weight lin k ((p * pw + q) * c + ch)
            = elem x [bi, ch, i * ph + p, j * pw + q]
               * lin_weight lin k ((p * pw + q) * c + ch)"
        using q ch j
        by (simp add: decode_patch_index [OF q ch] decode_mixed_radix [OF j] del: add_mult_distrib)
    qed
    finally have sumeq:
      "(\<Sum>v<ph * pw * c. elem ?patches [bi, i * ?gw + j, v] * lin_weight lin k v)
          = (\<Sum>p<ph. \<Sum>q<pw. \<Sum>ch<c.
               elem x [bi, ch, i * ph + p, j * pw + q]
               * lin_weight lin k ((p * pw + q) * c + ch))" .
    have "elem ?y [bi, i * ?gw + j, k]
          = (\<Sum>v<ph * pw * c. elem ?patches [bi, i * ?gw + j, v] * lin_weight lin k v)
            + (case lin_bias lin of None \<Rightarrow> 0 | Some bias \<Rightarrow> bias k)"
      by (simp add: along_last_def split: option.splits)
    then show ?thesis
      by (simp only: sumeq)
  qed
  show ?thesis
    using y entry by (intro exI [of _ ?y]) simp
qed

lemma conv_projection_entry:
  assumes x: "shape x = [b, c, H, W]" and H: "0 < H" and W: "0 < W"
      and ph: "0 < ph" and pw: "0 < pw"
      and div: "H mod ph = 0" "W mod pw = 0"
      and conv: "in_channels conv = c" "kernel_h conv = ph" "kernel_w conv = pw"
  shows "\<exists>y. patch_to_embedding_forward (ConvProjection conv) x = Inr y
           \<and> shape y = [b, (H div ph) * (W div pw), out_channels conv]
           \<and> (\<forall>bi i j k. j < W div pw \<longrightarrow>
                 elem y [bi, i * (W div pw) + j, k] =
                   conv_bias conv k
                   + (\<Sum>ch<c. \<Sum>p<ph. \<Sum>q<pw.
                        conv_weight conv k ch p q * elem x [bi, ch, i * ph + p, j * pw + q]))"
proof -
  let ?gh = "H div ph" and ?gw = "W div pw"
  note gh = conv_grid_size [OF ph H div(1)] and gw = conv_grid_size [OF pw W div(2)]
  let ?out = "\<lparr>shape = [b, out_channels conv, ?gh, ?gw],
               elem = (\<lambda>ix. conv_bias conv (ix ! 1)
                 + (\<Sum>ch<c. \<Sum>p<ph. \<Sum>q<pw.
                      conv_weight conv (ix ! 1) ch p q
                      * elem x [ix ! 0, ch, ix ! 2 * ph + p, ix ! 3 * pw + q]))\<rparr>"
  have out: "Conv2d_forward conv x = Inr ?out"
    using ph pw gh gw by (simp add: Conv2d_forward_def x conv)
  let ?flat = "\<lparr>shape = [b, out_channels conv, ?gh * ?gw],
                elem = (\<lambda>ix. elem ?out [ix ! 0, ix ! 1, ix ! 2 div ?gw, ix ! 2 mod ?gw])\<rparr>"
  have flat: "flatten2 ?out = Inr ?flat"
    by (simp add: flatten2_def)
  let ?y = "\<lparr>shape = [b, ?gh * ?gw, out_channels conv],
             elem = (\<lambda>ix. elem ?flat [ix ! 0, ix ! 2, ix ! 1])\<rparr>"
  have tr: "transpose12 ?flat = Inr ?y"
    by (simp add: transpose12_def)
  have y: "patch_to_embedding_forward (ConvProjection conv) x = Inr ?y"
    by (simp only: patch_to_embedding_forward.simps ConvProjection_forward_def out flat tr
        sum.case)
  have "elem ?y [bi, i * ?gw + j, k] =
          conv_bias conv k
          + (\<Sum>ch<c. \<Sum>p<ph. \<Sum>q<pw.
               conv_weight conv k ch p q * elem x [bi, ch, i * ph + p, j * pw + q])"
    if j: "j < ?gw" for bi i j k
    using j by (simp add: decode_mixed_radix [OF j])
  with y show ?thesis
    by (intro exI [of _ ?y]) simp
qed

lemma patch_sums_agree:
  fixes f :: "nat \<Rightarrow> nat \<Rightarrow> nat \<Rightarrow> real"
  shows "(\<Sum>p<ph. \<Sum>q<pw. \<Sum>ch<c. f p q ch) = (\<Sum>ch<c. \<Sum>p<ph. \<Sum>q<pw. f p q ch)"
proof -
  have "(\<Sum>p<ph. \<Sum>q<pw. \<Sum>ch<c. f p q ch) = (\<Sum>p<ph. \<Sum>ch<c. \<Sum>q<pw. f p q ch)"
  proof (rule sum.cong [OF refl])
    fix p
    show "(\<Sum>q<pw. \<Sum>ch<c. f p q ch) = (\<Sum>ch<c. \<Sum>q<pw. f p q ch)"
      by (rule sum.swap)
  qed
  also have "\<dots> = (\<Sum>ch<c. \<Sum>p<ph. \<Sum>q<pw. f p q ch)"
    by (rule sum.swap)
  finally show ?thesis .
qed

text \<open>
  Claim C7. On an image whose height and width are positive multiples of the patch
  sizes, the linear and the convolutional patch embedding of compatible configurations
  (the same patch sizes, channels and dimension) both return, with the same shape
  \<open>(batch, patch_count, dim)\<close>, and both put the patch of row \<open>i\<close> and column \<open>j\<close> of
  the grid at sequence position \<open>i * columns + j\<close>: the entry there is computed from
  the pixels \<open>(i * ph + p, j * pw + q)\<close> of the image and from no others. With matched
  weights the two outputs are equal entry by entry.
\<close>

theorem patch_embedding_variants_agree:
  assumes x: "shape x = [b, c, H, W]" and H: "0 < H" and W: "0 < W"
      and ph: "0 < ph" and pw: "0 < pw"
      and div: "H mod ph = 0" "W mod pw = 0"
      and lin: "in_features lin = ph * pw * c" "out_features lin = d"
      and conv: "in_channels conv = c" "out_channels conv = d"
                "kernel_h conv = ph" "kernel_w conv = pw"
  shows "\<exists>yl yc.
           patch_to_embedding_forward (LinearPatches (int ph) (int pw) lin) x = Inr yl
         \<and> patch_to_embedding_forward (ConvProjection conv) x = Inr yc
         \<and> shape yl = [b, (H div ph) * (W div pw), d]
         \<and> shape yc = [b, (H div ph) * (W div pw), d]
         \<and> (\<forall>bi i j k. j < W div pw \<longrightarrow>
               elem yl [bi, i * (W div pw) + j, k] =
                 (\<Sum>p<ph. \<Sum>q<pw. \<Sum>ch<c.
                    elem x [bi, ch, i * ph + p, j * pw + q]
                    * lin_weight lin k ((p * pw + q) * c + ch))
                 + (case lin_bias lin of None \<Rightarrow> 0 | Some bias \<Rightarrow> bias k)
             \<and> elem yc [bi, i * (W div pw) + j, k] =
                 conv_bias conv k
                 + (\<Sum>ch<c. \<Sum>p<ph. \<Sum>q<pw.
                      conv_weight conv k ch p q * elem x [bi, ch, i * ph + p, j * pw + q]))
         \<and> ((\<forall>k p q ch. lin_weight lin k ((p * pw + q) * c + ch) = conv_weight conv k ch p q)
              \<and> lin_bias lin = Some (conv_bias conv)
              \<longrightarrow> (\<forall>bi i j k. j < W div pw \<longrightarrow>
                     elem yl [bi, i * (W div pw) + j, k] = elem yc [bi, i * (W div pw) + j, k]))"
proof -
  from linear_patches_entry [OF x ph pw div lin(1)] obtain yl where
    yl: "patch_to_embedding_forward (LinearPatches (int ph) (int pw) lin) x = Inr yl" and
    sl: "shape yl = [b, (H div ph) * (W div pw), d]" and
    el: "\<And>bi i j k. j < W div pw \<Longrightarrow>
           elem yl [bi, i * (W div pw) + j, k] =
             (\<Sum>p<ph. \<Sum>q<pw. \<Sum>ch<c.
                elem x [bi, ch, i * ph + p, j * pw + q]
                * lin_weight lin k ((p * pw + q) * c + ch))
             + (case lin_bias lin of None \<Rightarrow> 0 | Some bias \<Rightarrow> bias k)"
    unfolding lin(2) by blast
  from conv_projection_entry [OF x H W ph pw div conv(1,3,4)] obtain yc where
    yc: "patch_to_embedding_forward (ConvProjection conv) x = Inr yc" and
    sc: "shape yc = [b, (H div ph) * (W div pw), d]" and
    ec: "\<And>bi i j k. j < W div pw \<Longrightarrow>
           elem yc [bi, i * (W div pw) + j, k] =
             conv_bias conv k
             + (\<Sum>ch<c. \<Sum>p<ph. \<Sum>q<pw.
                  conv_weight conv k ch p q * elem x [bi, ch, i * ph + p, j * pw + q])"
    unfolding conv(2) by blast
  have same: "elem yl [bi, i * (W div pw) + j, k] = elem yc [bi, i * (W div pw) + j, k]"
    if w: "\<forall>k p q ch. lin_weight lin k ((p * pw + q) * c + ch) = conv_weight conv k ch p q"
      and bias: "lin_bias lin = Some (conv_bias conv)" and j: "j < W div pw"
    for bi i j k
  proof -
    have "(\<Sum>p<ph. \<Sum>q<pw. \<Sum>ch<c.
             elem x [bi, ch, i * ph + p, j * pw + q] * lin_weight lin k ((p * pw + q) * c + ch))
          = (\<Sum>p<ph. \<Sum>q<pw. \<Sum>ch<c.
               conv_weight conv k ch p q * elem x [bi, ch, i * ph + p, j * pw + q])"
      by (intro sum.cong refl) (subst w [rule_format], rule mult.commute)
    also have "\<dots> = (\<Sum>ch<c. \<Sum>p<ph. \<Sum>q<pw.
               conv_weight conv k ch p q * elem x [bi, ch, i * ph + p, j * pw + q])"
      by (rule patch_sums_agree)
    finally show ?thesis
      by (simp add: el [OF j] ec [OF j] bias)
  qed
  show ?thesis
    using yl yc sl sc el ec same by (intro exI [of _ yl] exI [of _ yc]) simp
qed

lemma vit0_embedding:
  "patch_to_embedding vit0 =
     LinearPatches (int 2) (int 2) (Linear_init 4 2 True (\<lambda>name ix. 1) ''patch_to_embedding.1'')"
  by (simp add: vit0_def ViT_init_def ViT_init_sizes_def Dropout_init_def upt_1
      TransformerBlock_init_def Attention_init_def initial0_def)

lemma vit0_conv_embedding:
  "patch_to_embedding vit0_conv =
     ConvProjection \<lparr>in_channels = 1, out_channels = 2, kernel_h = 2, kernel_w = 2,
                     conv_weight = (\<lambda>j ch p q. 1), conv_bias = (\<lambda>j. 1)\<rparr>"
  by (simp add: vit0_conv_def ViT_init_def ViT_init_sizes_def Dropout_init_def upt_1
      TransformerBlock_init_def Attention_init_def initial0_def ConvProjection_init_def)

theorem patch_embedding_variants_agree_witness:
  "shape (ones [3, 1, 4, 4]) = [3, 1, 4, 4] \<and> (4::nat) mod 2 = 0
   \<and> (\<exists>yl yc.
           patch_to_embedding_forward (patch_to_embedding vit0) (ones [3, 1, 4, 4]) = Inr yl
         \<and> patch_to_embedding_forward (patch_to_embedding vit0_conv) (ones [3, 1, 4, 4]) = Inr yc
         \<and> shape yl = [3, 4, 2] \<and> shape yc = [3, 4, 2]
         \<and> elem yl [2, 1 * 2 + 1, 1] = elem yc [2, 1 * 2 + 1, 1]
         \<and> elem yc [2, 1 * 2 + 1, 1] =
              1 + (\<Sum>ch<1. \<Sum>p<2. \<Sum>q<2. 1 * elem (ones [3, 1, 4, 4]) [2, ch, 1 * 2 + p, 1 * 2 + q]))"
proof -
  let ?lin = "Linear_init 4 2 True (\<lambda>name ix. 1) ''patch_to_embedding.1''"
  let ?conv = "\<lparr>in_channels = 1, out_channels = 2, kernel_h = 2, kernel_w = 2,
                conv_weight = (\<lambda>j ch p q. 1), conv_bias = (\<lambda>j. 1::real)\<rparr>"
  have sx: "shape (ones [3, 1, 4, 4]) = [3, 1, 4, 4]"
    by (simp add: ones_def)
  have matched: "(\<forall>k p q ch. lin_weight ?lin k ((p * 2 + q) * 1 + ch) = conv_weight ?conv k ch p q)
              \<and> lin_bias ?lin = Some (conv_bias ?conv)"
    by (simp add: Linear_init_def)
  from patch_embedding_variants_agree [OF sx, of 2 2 ?lin 2 ?conv] matched
  obtain yl yc where
    yl: "patch_to_embedding_forward (LinearPatches (int 2) (int 2) ?lin) (ones [3, 1, 4, 4]) = Inr yl"
    and yc: "patch_to_embedding_forward (ConvProjection ?conv) (ones [3, 1, 4, 4]) = Inr yc"
    and sl: "shape yl = [3, 4, 2]" and sc: "shape yc = [3, 4, 2]"
    and ec: "\<And>bi i j k. j < 2 \<Longrightarrow> elem yc [bi, i * 2 + j, k] =
        1 + (\<Sum>ch<1. \<Sum>p<2. \<Sum>q<2. 1 * elem (ones [3, 1, 4, 4]) [bi, ch, i * 2 + p, j * 2 + q])"
    and same: "\<And>bi i j k. j < 2 \<Longrightarrow> elem yl [bi, i * 2 + j, k] = elem yc [bi, i * 2 + j, k]"
    by (auto simp: Linear_init_def)
  have lt: "(1::nat) < 2"
    by simp
  note e1 = same [OF lt, of 2 1 1] and e2 = ec [OF lt, of 2 1 1]
  have m: "(4::nat) mod 2 = 0"
    by simp
  show ?thesis
    unfolding vit0_embedding vit0_conv_embedding
    by (intro conjI exI [of _ yl] exI [of _ yc]) (fact sx m yl yc sl sc e1 e2)+
qed

subsection \<open>The forward pass\<close>

lemma patch_to_embedding_forward_shape:
  assumes emb: "(\<exists>ph pw lin. emb = LinearPatches ph pw lin \<and> out_features lin = d)
              \<or> (\<exists>conv. emb = ConvProjection conv \<and> out_channels conv = d)"
      and y: "patch_to_embedding_forward emb x = Inr y"
  shows "\<exists>b c H W n. shape x = [b, c, H, W] \<and> shape y = [b, n, d]"
  using emb
proof (elim disjE exE conjE)
  fix ph pw lin
  assume e: "emb = LinearPatches ph pw lin" and o: "out_features lin = d"
  from y obtain t where t: "to_patches ph pw x = Inr t" and l: "Linear_forward lin t = Inr y"
    by (auto simp: e split: sum.splits)
  from t obtain b c H W n k where "shape x = [b, c, H, W]" "shape t = [b, n, k]"
    by (auto simp: to_patches_def Let_def split: list.splits if_splits)
  with Linear_forward_shape [OF l] o show ?thesis
    by simp
next
  fix conv
  assume e: "emb = ConvProjection conv" and o: "out_channels conv = d"
  from y obtain t f where t: "Conv2d_forward conv x = Inr t" and f: "flatten2 t = Inr f"
    and r: "transpose12 f = Inr y"
    by (auto simp: e ConvProjection_forward_def split: sum.splits)
  from t obtain b c H W gh gw where sx: "shape x = [b, c, H, W]"
    and st: "shape t = [b, out_channels conv, gh, gw]"
    by (auto simp: Conv2d_forward_def split: list.splits if_splits)
  from f st have "shape f = [b, out_channels conv, gh * gw]"
    by (auto simp: flatten2_def)
  with r have "shape y = [b, gh * gw, out_channels conv]"
    by (auto simp: transpose12_def)
  with sx o show ?thesis
    by simp
qed

lemma expand_batch_cls:
  assumes "shape t = [1, 1, d]"
  shows "\<exists>r. expand_batch t b = Inr r \<and> shape r = [b, 1, d]"
  by (cases "b = 1") (simp_all add: expand_batch_def assms)

lemma cat_dim1_shape:
  assumes "shape a = [b, 1, d]" and "shape x = [b, n, d]"
  shows "\<exists>r. cat_dim1 a x = Inr r \<and> shape r = [b, n + 1, d]"
  by (simp add: cat_dim1_def assms)

lemma cat_dim1_result_shape:
  assumes "cat_dim1 a x = Inr r" and "shape a = [b, 1, d]" and "shape x = [b', n, d']"
  shows "shape r = [b, n + 1, d] \<and> b' = b \<and> d' = d"
  using assms by (auto simp: cat_dim1_def split: if_splits)

lemma tensor_iadd_shape: "tensor_iadd x y = Inr r \<Longrightarrow> shape r = shape x"
  by (auto simp: tensor_iadd_def split: sum.splits if_splits)

lemma tensor_iadd_batch:
  assumes "shape x = [b, n, d]" and "shape y = [1, n, d]"
  shows "\<exists>r. tensor_iadd x y = Inr r \<and> shape r = [b, n, d]"
  by (simp add: tensor_iadd_def tensor_add_def broadcast_shapes_def assms)

lemma ViT_init_embedding_out:
  assumes "ViT_init image_size patch_size channels d depth heads mlp_dim dim_head pool_flag
             projection p emb_dropout qkv_bias ini = Inr self"
  shows "(\<exists>ph pw lin. patch_to_embedding self = LinearPatches ph pw lin \<and> out_features lin = d)
       \<or> (\<exists>conv. patch_to_embedding self = ConvProjection conv \<and> out_channels conv = d)"
proof -
  from ViT_init_fields [OF assms] obtain sz where
    "ViT_init_sizes image_size patch_size (int channels) = Inr sz"
    by blast
  from ViT_init_embedding [OF assms this] show ?thesis
    by (cases "projection = ''linear''") auto
qed

text \<open>
  The sequence that is pooled, on a constructed encoder: whenever the forward pass gets
  that far, the image batch has four axes and the sequence is one of \<open>n + 1\<close> vectors
  of dimension \<open>d\<close> for each element of the batch, the class token and \<open>n\<close> patches.
\<close>

lemma ViT_sequence_shape:
  assumes init: "ViT_init image_size patch_size channels d depth heads mlp_dim dim_head
             pool_flag projection p emb_dropout qkv_bias ini = Inr self"
      and s: "ViT_sequence eng self x norm_flag = Inr s"
  shows "\<exists>b c w h n. shape x = [b, c, w, h] \<and> shape s = [b, n + 1, d]"
proof -
  from s obtain b c w h where sx: "shape x = [b, c, w, h]"
    by (auto simp: ViT_sequence_def split: list.splits)
  from s sx obtain x1 cls x2 pe x3 x4 where
    x1: "patch_to_embedding_forward (patch_to_embedding self) x = Inr x1" and
    cls: "expand_batch (cls_token self) b = Inr cls" and
    x2: "cat_dim1 cls x1 = Inr x2" and
    pe: "interpolate_pos_encoding eng self x2 w h = Inr pe" and
    x3: "tensor_iadd x2 pe = Inr x3" and
    x4: "layers_forward eng (layers self) (Dropout_forward (vit_dropout self) x3) = Inr x4" and
    fin: "(if norm_flag then LayerNorm_forward (vit_norm self) x4 else Inr x4) = Inr s"
    by (auto simp: ViT_sequence_def split: sum.splits)
  from ViT_init_fields [OF init] have
    sc: "shape (cls_token self) = [1, 1, d]" and
    blocks: "list_all (block_dims d heads dim_head mlp_dim) (layers self)"
    by auto
  from patch_to_embedding_forward_shape [OF ViT_init_embedding_out [OF init] x1] sx
  obtain n where s1: "shape x1 = [b, n, d]"
    by auto
  from expand_batch_cls [OF sc, of b] cls have scls: "shape cls = [b, 1, d]"
    by auto
  from cat_dim1_result_shape [OF x2 scls s1] have s2: "shape x2 = [b, n + 1, d]"
    by simp
  have s3: "shape x3 = [b, n + 1, d]"
    using tensor_iadd_shape [OF x3] s2 by simp
  have s4: "shape x4 = [b, n + 1, d]"
    using layers_forward_shape [OF blocks x4] s3 by (simp add: Dropout_forward_shape)
  have "shape s = [b, n + 1, d]"
    using fin s4 by (auto dest: LayerNorm_forward_shape split: if_splits)
  with sx show ?thesis
    by blast
qed

lemma pooling_result:
  assumes "shape s = [b, n + 1, d]"
  shows "\<exists>y. (if pool_flag then mean_dim1 s else select_dim1 s 0) = Inr y
           \<and> shape y = [b, d]
           \<and> (\<forall>i j. elem y [i, j] =
                 (if pool_flag then (\<Sum>k<n + 1. elem s [i, k, j]) / real (n + 1)
                  else elem s [i, 0, j]))"
  by (simp add: mean_dim1_def select_dim1_def assms)

lemma ViT_init_sizes_square:
  assumes img: "pair image_size = PyTuple [PyInt (int S), PyInt (int S)]"
      and pat: "pair patch_size = PyTuple [PyInt (int ph), PyInt (int pw)]"
      and ph: "0 < ph" and pw: "0 < pw"
  shows "ViT_init_sizes image_size patch_size (int channels) =
           Inr \<lparr>sz_patch_height = int ph, sz_patch_width = int pw,
                sz_num_patches = int ((S div ph) * (S div pw)),
                sz_patch_dim = int (ph * pw * channels)\<rparr>"
  using ph pw by (simp add: ViT_init_sizes_def img pat zdiv_int)

text \<open>
  The forward pass returns on every constructed encoder with a square image size that
  the patch sizes divide, at least one head, and an input batch of the configured
  channels and size: the positional encoding takes the fast path.
\<close>

lemma ViT_sequence_returns:
  assumes init: "ViT_init image_size patch_size channels d depth heads mlp_dim dim_head
             pool_flag projection p emb_dropout qkv_bias ini = Inr self"
      and img: "pair image_size = PyTuple [PyInt (int S), PyInt (int S)]"
      and pat: "pair patch_size = PyTuple [PyInt (int ph), PyInt (int pw)]"
      and S: "0 < S" and ph: "0 < ph" and pw: "0 < pw"
      and div: "S mod ph = 0" "S mod pw = 0"
      and heads: "0 < heads"
      and x: "shape x = [b, channels, S, S]"
  shows "\<exists>s. ViT_sequence eng self x norm_flag = Inr s
           \<and> shape s = [b, (S div ph) * (S div pw) + 1, d]"
proof -
  let ?n = "(S div ph) * (S div pw)"
  note sizes = ViT_init_sizes_square [OF img pat ph pw, of channels]
  from ViT_init_fields [OF init] obtain sz where
    sz: "ViT_init_sizes image_size patch_size (int channels) = Inr sz" and
    spos': "shape (pos_embedding self) = [1, nat (sz_num_patches sz + 1), d]" and
    sc: "shape (cls_token self) = [1, 1, d]" and
    blocks: "list_all (block_dims d heads dim_head mlp_dim) (layers self)" and
    nd: "ln_dim (vit_norm self) = d"
    by blast
  from sz sizes have "sz = \<lparr>sz_patch_height = int ph, sz_patch_width = int pw,
                sz_num_patches = int ((S div ph) * (S div pw)),
                sz_patch_dim = int (ph * pw * channels)\<rparr>"
    by (simp only: sum.inject)
  then have "sz_num_patches sz = int ?n"
    by (simp only: vit_sizes.select_convs)
  then have "sz_num_patches sz + 1 = int (?n + 1)"
    by simp
  then have "nat (sz_num_patches sz + 1) = ?n + 1"
    by (simp only: nat_int)
  with spos' have spos: "shape (pos_embedding self) = [1, ?n + 1, d]"
    by simp
  have "\<exists>x1. patch_to_embedding_forward (patch_to_embedding self) x = Inr x1
          \<and> shape x1 = [b, ?n, d]"
  proof (cases "projection = ''linear''")
    case True
    with ViT_init_embedding [OF init sizes] obtain lin where
      e: "patch_to_embedding self = LinearPatches (int ph) (int pw) lin" and
      i: "in_features lin = ph * pw * channels" and o: "out_features lin = d"
      by (auto simp flip: of_nat_mult)
    from linear_patches_entry [OF x ph pw div i] show ?thesis
      unfolding e o by blast
  next
    case False
    with ViT_init_embedding [OF init sizes] obtain conv where
      e: "patch_to_embedding self = ConvProjection conv" and
      c: "in_channels conv = channels" "kernel_h conv = ph" "kernel_w conv = pw" and
      o: "out_channels conv = d"
      by auto
    from conv_projection_entry [OF x S S ph pw div c] show ?thesis
      unfolding e o by blast
  qed
  then obtain x1 where
    x1: "patch_to_embedding_forward (patch_to_embedding self) x = Inr x1" and
    s1: "shape x1 = [b, ?n, d]"
    by blast
  from expand_batch_cls [OF sc, of b] obtain cls where
    cls: "expand_batch (cls_token self) b = Inr cls" and scls: "shape cls = [b, 1, d]"
    by blast
  from cat_dim1_shape [OF scls s1] obtain x2 where
    x2: "cat_dim1 cls x1 = Inr x2" and s2: "shape x2 = [b, ?n + 1, d]"
    by blast
  have pe: "interpolate_pos_encoding eng self x2 S S = Inr (pos_embedding self)"
    using s2 spos by (rule interpolate_fast_path)
  from tensor_iadd_batch [OF s2 spos] obtain x3 where
    x3: "tensor_iadd x2 (pos_embedding self) = Inr x3" and s3: "shape x3 = [b, ?n + 1, d]"
    by blast
  have sd: "shape (Dropout_forward (vit_dropout self) x3) = [b, ?n + 1, d]"
    by (simp add: Dropout_forward_shape s3)
  from layers_forward_returns [OF blocks heads sd, of eng] obtain x4 where
    x4: "layers_forward eng (layers self) (Dropout_forward (vit_dropout self) x3) = Inr x4"
    and s4: "shape x4 = [b, ?n + 1, d]"
    using sd by auto
  from LayerNorm_forward_returns [of x4 "vit_norm self"] s4 nd obtain x5 where
    x5: "LayerNorm_forward (vit_norm self) x4 = Inr x5"
    by auto
  have s5: "shape x5 = [b, ?n + 1, d]"
    using LayerNorm_forward_shape [OF x5] s4 by simp
  show ?thesis
    by (cases norm_flag) (simp_all add: ViT_sequence_def x x1 cls x2 pe x3 x4 x5 s4 s5)
qed

text \<open>
  Claim C4. On a constructed encoder, whatever the pooling mode: whenever \<open>ViT.forward\<close>
  returns, the batch of images has four axes, the first being the batch size \<open>b\<close>, and
  the result has shape \<open>(b, dim)\<close>; with mean pooling its rows are the means over all
  \<open>n + 1\<close> positions of the final sequence, otherwise they are the vectors at position
  0, the class token's. And it does return for every configuration with a square image
  size that the patch sizes divide and at least one head, on every batch of images of
  the configured channels and size.
\<close>

theorem forward_shape_and_pooling:
  assumes init: "ViT_init image_size patch_size channels d depth heads mlp_dim dim_head
             pool_flag projection p emb_dropout qkv_bias ini = Inr self"
  shows "(\<forall>y. ViT_forward eng self x norm_flag mixup lbda perm = Inr y \<longrightarrow>
            (\<exists>b c w h n s.
                shape x = [b, c, w, h]
              \<and> ViT_sequence eng self x norm_flag = Inr s
              \<and> shape s = [b, n + 1, d]
              \<and> shape y = [b, d]
              \<and> (\<forall>i j. elem y [i, j] =
                    (if pool_flag then (\<Sum>k<n + 1. elem s [i, k, j]) / real (n + 1)
                     else elem s [i, 0, j]))))
       \<and> (pair image_size = PyTuple [PyInt (int S), PyInt (int S)]
          \<and> pair patch_size = PyTuple [PyInt (int ph), PyInt (int pw)]
          \<and> 0 < S \<and> 0 < ph \<and> 0 < pw \<and> S mod ph = 0 \<and> S mod pw = 0 \<and> 0 < heads
          \<and> shape x = [b', channels, S, S]
          \<longrightarrow> (\<exists>y. ViT_forward eng self x norm_flag mixup lbda perm = Inr y
                  \<and> shape y = [b', d]))"
proof (intro conjI allI impI)
  fix y
  assume y: "ViT_forward eng self x norm_flag mixup lbda perm = Inr y"
  from ViT_init_fields [OF init] have pool: "pool self = pool_flag"
    by blast
  from y obtain s where s: "ViT_sequence eng self x norm_flag = Inr s"
    and ys: "(if pool_flag then mean_dim1 s else select_dim1 s 0) = Inr y"
    by (auto simp: ViT_forward_def pool split: sum.splits)
  from ViT_sequence_shape [OF init s] obtain b c w h n where
    sx: "shape x = [b, c, w, h]" and ss: "shape s = [b, n + 1, d]"
    by blast
  from pooling_result [OF ss, of pool_flag] ys have
    "shape y = [b, d]"
    "\<forall>i j. elem y [i, j] =
        (if pool_flag then (\<Sum>k<n + 1. elem s [i, k, j]) / real (n + 1) else elem s [i, 0, j])"
    by auto
  with sx s ss show "\<exists>b c w h n s.
                shape x = [b, c, w, h]
              \<and> ViT_sequence eng self x norm_flag = Inr s
              \<and> shape s = [b, n + 1, d]
              \<and> shape y = [b, d]
              \<and> (\<forall>i j. elem y [i, j] =
                    (if pool_flag then (\<Sum>k<n + 1. elem s [i, k, j]) / real (n + 1)
                     else elem s [i, 0, j]))"
    by blast
next
  assume sq: "pair image_size = PyTuple [PyInt (int S), PyInt (int S)]
          \<and> pair patch_size = PyTuple [PyInt (int ph), PyInt (int pw)]
          \<and> 0 < S \<and> 0 < ph \<and> 0 < pw \<and> S mod ph = 0 \<and> S mod pw = 0 \<and> 0 < heads
          \<and> shape x = [b', channels, S, S]"
  from ViT_init_fields [OF init] have pool: "pool self = pool_flag"
    by blast
  from sq have "pair image_size = PyTuple [PyInt (int S), PyInt (int S)]"
    "pair patch_size = PyTuple [PyInt (int ph), PyInt (int pw)]"
    "0 < S" "0 < ph" "0 < pw" "S mod ph = 0" "S mod pw = 0" "0 < heads"
    "shape x = [b', channels, S, S]"
    by simp_all
  from ViT_sequence_returns [OF init this, of eng norm_flag] obtain s where
    s: "ViT_sequence eng self x norm_flag = Inr s"
    and ss: "shape s = [b', (S div ph) * (S div pw) + 1, d]"
    by blast
  from pooling_result [OF ss, of pool_flag] obtain y where
    "(if pool_flag then mean_dim1 s else select_dim1 s 0) = Inr y" "shape y = [b', d]"
    by blast
  then show "\<exists>y. ViT_forward eng self x norm_flag mixup lbda perm = Inr y \<and> shape y = [b', d]"
    by (simp add: ViT_forward_def s pool)
qed

lemma vit0_mean_init:
  "ViT_init (PyInt 4) (PyInt 2) 1 2 1 1 2 1 True ''linear'' 0 0 False initial0 = Inr vit0_mean"
  by (simp add: vit0_mean_def ViT_init_def ViT_init_sizes_def Dropout_init_def upt_1
      TransformerBlock_init_def Attention_init_def initial0_def)

lemma square_4_2:
  "pair (PyInt 4) = PyTuple [PyInt (int 4), PyInt (int 4)]
   \<and> pair (PyInt 2) = PyTuple [PyInt (int 2), PyInt (int 2)]
   \<and> (0::nat) < 4 \<and> (0::nat) < 2 \<and> (0::nat) < 2 \<and> (4::nat) mod 2 = 0 \<and> (4::nat) mod 2 = 0
   \<and> (0::nat) < 1 \<and> shape (ones [3, 1, 4, 4]) = [3, 1, 4, 4]"
  by (simp add: ones_def)

theorem forward_shape_and_pooling_witness:
  "ViT_init (PyInt 4) (PyInt 2) 1 2 1 1 2 1 False ''linear'' 0 0 False initial0 = Inr vit0
   \<and> ViT_init (PyInt 4) (PyInt 2) 1 2 1 1 2 1 True ''linear'' 0 0 False initial0 = Inr vit0_mean
   \<and> (\<exists>y s n. ViT_forward engine0 vit0 (ones [3, 1, 4, 4]) True PyNone PyNone PyNone = Inr y
          \<and> ViT_sequence engine0 vit0 (ones [3, 1, 4, 4]) True = Inr s
          \<and> shape s = [3, n + 1, 2] \<and> shape y = [3, 2]
          \<and> elem y [2, 1] = elem s [2, 0, 1])
   \<and> (\<exists>y s n. ViT_forward engine0 vit0_mean (ones [3, 1, 4, 4]) True PyNone PyNone PyNone = Inr y
          \<and> ViT_sequence engine0 vit0_mean (ones [3, 1, 4, 4]) True = Inr s
          \<and> shape s = [3, n + 1, 2] \<and> shape y = [3, 2]
          \<and> elem y [2, 1] = (\<Sum>k<n + 1. elem s [2, k, 1]) / real (n + 1))"
proof -
  let ?x = "ones [3, 1, 4, 4]"
  note t0 = forward_shape_and_pooling [OF vit0_init,
      of engine0 ?x True PyNone PyNone PyNone 4 2 2 3]
  note t1 = forward_shape_and_pooling [OF vit0_mean_init,
      of engine0 ?x True PyNone PyNone PyNone 4 2 2 3]
  have sx: "shape ?x = [3, 1, 4, 4]"
    by (simp add: ones_def)
  from t0 square_4_2 obtain y0 where
    y0: "ViT_forward engine0 vit0 ?x True PyNone PyNone PyNone = Inr y0"
    by blast
  with t0 sx obtain s0 n0 where
    "ViT_sequence engine0 vit0 ?x True = Inr s0" "shape s0 = [3, n0 + 1, 2]"
    "shape y0 = [3, 2]" "elem y0 [2, 1] = elem s0 [2, 0, 1]"
    by fastforce
  with y0 have a: "\<exists>y s n. ViT_forward engine0 vit0 ?x True PyNone PyNone PyNone = Inr y
          \<and> ViT_sequence engine0 vit0 ?x True = Inr s
          \<and> shape s = [3, n + 1, 2] \<and> shape y = [3, 2]
          \<and> elem y [2, 1] = elem s [2, 0, 1]"
    by blast
  from t1 square_4_2 obtain y1 where
    y1: "ViT_forward engine0 vit0_mean ?x True PyNone PyNone PyNone = Inr y1"
    by blast
  with t1 sx obtain s1 n1 where
    "ViT_sequence engine0 vit0_mean ?x True = Inr s1" "shape s1 = [3, n1 + 1, 2]"
    "shape y1 = [3, 2]"
    "elem y1 [2, 1] = (\<Sum>k<n1 + 1. elem s1 [2, k, 1]) / real (n1 + 1)"
    by fastforce
  with y1 have b: "\<exists>y s n. ViT_forward engine0 vit0_mean ?x True PyNone PyNone PyNone = Inr y
          \<and> ViT_sequence engine0 vit0_mean ?x True = Inr s
          \<and> shape s = [3, n + 1, 2] \<and> shape y = [3, 2]
          \<and> elem y [2, 1] = (\<Sum>k<n + 1. elem s [2, k, 1]) / real (n + 1)"
    by blast
  show ?thesis
    using vit0_init vit0_mean_init a b by blast
qed

text \<open>
  Claim C8. The arguments \<open>mixup\<close>, \<open>lbda\<close> and \<open>perm\<close> are never read: two calls of
  \<open>ViT.forward\<close> on the same encoder, engine, random state (the dropout masks are part
  of the encoder), input and \<open>norm\<close> flag have the same outcome whatever these three
  arguments are, of whatever type, the same result or the same exception. In particular
  neither call raises where the other returns, and where the forward pass returns at
  all (on a constructed encoder with a square image size, at the configured size) both
  calls return the same tensor.
\<close>

theorem forward_ignores_mixup_arguments:
  "ViT_forward eng self x norm_flag mixup lbda perm
     = ViT_forward eng self x norm_flag mixup' lbda' perm'
   \<and> (ViT_init image_size patch_size channels d depth heads mlp_dim dim_head pool_flag
          projection p emb_dropout qkv_bias ini = Inr self
      \<and> pair image_size = PyTuple [PyInt (int S), PyInt (int S)]
      \<and> pair patch_size = PyTuple [PyInt (int ph), PyInt (int pw)]
      \<and> 0 < S \<and> 0 < ph \<and> 0 < pw \<and> S mod ph = 0 \<and> S mod pw = 0 \<and> 0 < heads
      \<and> shape x = [b, channels, S, S]
      \<longrightarrow> (\<exists>y. ViT_forward eng self x norm_flag mixup lbda perm = Inr y
              \<and> ViT_forward eng self x norm_flag mixup' lbda' perm' = Inr y))"
proof (intro conjI impI)
  show same: "ViT_forward eng self x norm_flag mixup lbda perm
     = ViT_forward eng self x norm_flag mixup' lbda' perm'"
    by (simp add: ViT_forward_def)
  assume a: "ViT_init image_size patch_size channels d depth heads mlp_dim dim_head pool_flag
          projection p emb_dropout qkv_bias ini = Inr self
      \<and> pair image_size = PyTuple [PyInt (int S), PyInt (int S)]
      \<and> pair patch_size = PyTuple [PyInt (int ph), PyInt (int pw)]
      \<and> 0 < S \<and> 0 < ph \<and> 0 < pw \<and> S mod ph = 0 \<and> S mod pw = 0 \<and> 0 < heads
      \<and> shape x = [b, channels, S, S]"
  then have init: "ViT_init image_size patch_size channels d depth heads mlp_dim dim_head
          pool_flag projection p emb_dropout qkv_bias ini = Inr self"
    and sq: "pair image_size = PyTuple [PyInt (int S), PyInt (int S)]"
    "pair patch_size = PyTuple [PyInt (int ph), PyInt (int pw)]"
    "0 < S" "0 < ph" "0 < pw" "S mod ph = 0" "S mod pw = 0" "0 < heads"
    "shape x = [b, channels, S, S]"
    by simp_all
  from ViT_sequence_returns [OF init sq, of eng norm_flag] obtain s where
    s: "ViT_sequence eng self x norm_flag = Inr s"
    and ss: "shape s = [b, (S div ph) * (S div pw) + 1, d]"
    by blast
  from pooling_result [OF ss, of "pool self"] obtain y where
    "(if pool self then mean_dim1 s else select_dim1 s 0) = Inr y"
    by blast
  then have "ViT_forward eng self x norm_flag mixup lbda perm = Inr y"
    "ViT_forward eng self x norm_flag mixup' lbda' perm' = Inr y"
    by (simp_all add: ViT_forward_def s)
  then show "\<exists>y. ViT_forward eng self x norm_flag mixup lbda perm = Inr y
              \<and> ViT_forward eng self x norm_flag mixup' lbda' perm' = Inr y"
    by blast
qed

theorem forward_ignores_mixup_arguments_witness:
  "ViT_forward engine0 vit0 (ones [3, 1, 4, 4]) True PyNone PyNone PyNone
     = ViT_forward engine0 vit0 (ones [3, 1, 4, 4]) True True (1 / 2 :: real) [2, 0, 1 :: nat]
   \<and> ViT_init (PyInt 4) (PyInt 2) 1 2 1 1 2 1 False ''linear'' 0 0 False initial0 = Inr vit0
   \<and> shape (ones [3, 1, 4, 4]) = [3, 1, 4, 4]
   \<and> (\<exists>y. ViT_forward engine0 vit0 (ones [3, 1, 4, 4]) True PyNone PyNone PyNone = Inr y
          \<and> ViT_forward engine0 vit0 (ones [3, 1, 4, 4]) True True (1 / 2 :: real) [2, 0, 1 :: nat]
              = Inr y)"
  using forward_ignores_mixup_arguments [of engine0 vit0 "ones [3, 1, 4, 4]" True
      PyNone PyNone PyNone True "1 / 2 :: real" "[2, 0, 1 :: nat]"
      "PyInt 4" "PyInt 2" 1 2 1 1 2 1 False "''linear''" 0 0 False initial0 4 2 2 3]
    vit0_init square_4_2
  by blast

end
